theory Spec2Isabelle
  imports Complex_Main "HOL-Library.Log_Nat"
begin

section \<open>Token Reducer: data model\<close>

text \<open>
  The extension keeps its state in three places: the host's chat (an array of message
  objects whose \<^verbatim>\<open>extra\<close> bag carries the \<^verbatim>\<open>tr_*\<close> fields), the module variable
  \<^verbatim>\<open>memoryCache\<close> and the module variable \<^verbatim>\<open>timelineData\<close> (both in
  \<^verbatim>\<open>memory-manager.js\<close>).  JavaScript numbers that hold message ids, chapter numbers and
  timestamps are modelled as \<open>int\<close> (the code compares them with \<open><\<close> and \<open>>\<close> before
  using them as indices), token counts as \<open>nat\<close>, strings as \<open>string\<close>.  A field of the
  \<^verbatim>\<open>extra\<close> bag that may be absent is an \<open>option\<close>; JavaScript truthiness of such a
  field is written out (\<open>truthyStr\<close>, \<open>truthyNum\<close>, \<open>truthyBool\<close>).
\<close>

record extra =
  tr_summary :: "string option"
  tr_summarized_at :: "int option"
  tr_scene_end :: "bool option"
  tr_scene_summary :: "string option"
  tr_scene_start :: "int option"

record message =
  name :: string
  mes :: string
  is_system :: bool
  is_user :: bool
  extra :: "extra option"

text \<open>An entry of \<^verbatim>\<open>memoryCache\<close>: the fields \<^verbatim>\<open>type\<close>, \<^verbatim>\<open>mesId\<close>, \<^verbatim>\<open>summary\<close>,
  \<^verbatim>\<open>keywords\<close> and \<^verbatim>\<open>timestamp\<close>.\<close>

record memory =
  mem_type :: string
  mem_mesId :: "int option"
  mem_summary :: string
  mem_keywords :: "string list"
  mem_timestamp :: int

text \<open>An entry of \<^verbatim>\<open>timelineData\<close>: a chapter with its summary and the range of message
  ids it covers.\<close>

record chapterRec =
  summary :: string
  startMsgId :: int
  endMsgId :: int

text \<open>Truthiness of an optional string, number and boolean (\<^verbatim>\<open>if (x)\<close>, \<^verbatim>\<open>!x\<close>).\<close>

definition truthyStr :: "string option \<Rightarrow> bool" where
  "truthyStr v = (case v of None \<Rightarrow> False | Some s \<Rightarrow> s \<noteq> [])"

definition truthyNum :: "int option \<Rightarrow> bool" where
  "truthyNum v = (case v of None \<Rightarrow> False | Some n \<Rightarrow> n \<noteq> 0)"

definition truthyBool :: "bool option \<Rightarrow> bool" where
  "truthyBool v = (case v of None \<Rightarrow> False | Some b \<Rightarrow> b)"

section \<open>Chapter timeline (\<^verbatim>\<open>memory-manager.js\<close>, lines 107--190)\<close>

text \<open>
  The functions below take the module variable \<^verbatim>\<open>timelineData\<close> as their first argument
  and return the result of the call together with the new value of the variable.
  \<^verbatim>\<open>saveTimelineData\<close> stores the same array in the chat metadata and asks the host to
  persist it; it does not change the array.
\<close>

definition getChapterCount :: "chapterRec list \<Rightarrow> int" where
  "getChapterCount timelineData = int (length timelineData)"

text \<open>\<^verbatim>\<open>getChapter\<close> returns a copy of the stored chapter extended by the field
  \<^verbatim>\<open>number\<close>: the pair of the chapter and the number.\<close>

definition getChapter :: "chapterRec list \<Rightarrow> int \<Rightarrow> (chapterRec \<times> int) option" where
  "getChapter timelineData chapterNumber =
     (if chapterNumber < 1 \<or> chapterNumber > int (length timelineData) then None
      else Some (timelineData ! nat (chapterNumber - 1), chapterNumber))"

definition addChapter :: "chapterRec list \<Rightarrow> string \<Rightarrow> int \<Rightarrow> int \<Rightarrow> int \<times> chapterRec list" where
  "addChapter timelineData summaryText startId endId =
     (let newChapter = \<lparr>summary = summaryText, startMsgId = startId, endMsgId = endId\<rparr>;
          timelineData' = timelineData @ [newChapter]
      in (int (length timelineData'), timelineData'))"

definition updateChapter :: "chapterRec list \<Rightarrow> int \<Rightarrow> string \<Rightarrow> bool \<times> chapterRec list" where
  "updateChapter timelineData chapterNumber newSummary =
     (if chapterNumber < 1 \<or> chapterNumber > int (length timelineData) then (False, timelineData)
      else (True, timelineData[nat (chapterNumber - 1) :=
                    (timelineData ! nat (chapterNumber - 1))\<lparr>summary := newSummary\<rparr>]))"

text \<open>\<^verbatim>\<open>timelineData.splice(chapterNumber - 1, 1)[0]\<close>: the entry at that position is cut
  out and returned; \<^verbatim>\<open>null\<close> is \<open>None\<close>.\<close>

definition removeChapter :: "chapterRec list \<Rightarrow> int \<Rightarrow> chapterRec option \<times> chapterRec list" where
  "removeChapter timelineData chapterNumber =
     (if chapterNumber < 1 \<or> chapterNumber > int (length timelineData) then (None, timelineData)
      else (Some (timelineData ! nat (chapterNumber - 1)),
            take (nat (chapterNumber - 1)) timelineData @ drop (nat chapterNumber) timelineData))"

section \<open>Strings\<close>

text \<open>
  The string methods the code calls, on \<open>string\<close>.  A JavaScript string is a sequence of
  16-bit code units; a \<open>string\<close> here is a sequence of 8-bit characters, so the model
  has the texts whose code units are all below 256 (the characters \<open>U+0000\<close> to
  \<open>U+00FF\<close>).  On these the functions below are the JavaScript ones:
  \<^item> white space, for \<^verbatim>\<open>trim\<close> and for \<^verbatim>\<open>\s\<close>, is tab, line feed, vertical tab, form
    feed, carriage return, space and the no-break space \<open>U+00A0\<close> (the other white space
    characters of JavaScript are \<open>U+1680\<close> and above);
  \<^item> \<^verbatim>\<open>toLowerCase\<close> maps \<open>A\<close> to \<open>Z\<close> and the letters \<open>U+00C0\<close> to \<open>U+00DE\<close>,
    the multiplication sign \<open>U+00D7\<close> excepted, to the character 32 places further on,
    and leaves every other character below 256 as it is.
\<close>

definition isSpace :: "char \<Rightarrow> bool" where
  "isSpace c = (c = CHR '' '' \<or> c = CHR 0x09 \<or> c = CHR 0x0A \<or> c = CHR 0x0B
                \<or> c = CHR 0x0C \<or> c = CHR 0x0D \<or> c = CHR 0xA0)"

definition trim :: "string \<Rightarrow> string" where
  "trim s = rev (dropWhile isSpace (rev (dropWhile isSpace s)))"

definition lowerChar :: "char \<Rightarrow> char" where
  "lowerChar c =
     (let n = (of_char c :: nat)
      in if (65 \<le> n \<and> n \<le> 90) \<or> (192 \<le> n \<and> n \<le> 222 \<and> n \<noteq> 215) then char_of (n + 32) else c)"

definition toLowerCase :: "string \<Rightarrow> string" where
  "toLowerCase s = map lowerChar s"

text \<open>\<^verbatim>\<open>s.split(/\s+/)\<close>: the pieces between maximal runs of white space; \<open>inRun\<close> says
  that the character before was white space, \<open>cur\<close> is the piece being read.\<close>

fun splitWs :: "bool \<Rightarrow> string \<Rightarrow> string \<Rightarrow> string list" where
  "splitWs inRun cur [] = [cur]"
| "splitWs inRun cur (c # cs) =
     (if isSpace c then (if inRun then splitWs True cur cs else cur # splitWs True [] cs)
      else splitWs False (cur @ [c]) cs)"

definition splitWhitespace :: "string \<Rightarrow> string list" where
  "splitWhitespace s = splitWs False [] s"


text \<open>\<^verbatim>\<open>parts.join(sep)\<close>.\<close>

fun join :: "string \<Rightarrow> string list \<Rightarrow> string" where
  "join sep [] = []"
| "join sep [x] = x"
| "join sep (x # y # ys) = x @ sep @ join sep (y # ys)"

text \<open>\<^verbatim>\<open>s.replace(pat, rep)\<close> with a string pattern: the first occurrence is replaced.
  (The \<^verbatim>\<open>$\<close> patterns of a replacement string are not modelled; the replacement is
  the empty string wherever the functions below call it, except in the prompt of the
  retrieval query, a prompt that is never sent.)\<close>

fun replaceFirst :: "string \<Rightarrow> string \<Rightarrow> string \<Rightarrow> string" where
  "replaceFirst pat rep [] = (if pat = [] then rep else [])"
| "replaceFirst pat rep (c # cs) =
     (if take (length pat) (c # cs) = pat then rep @ drop (length pat) (c # cs)
      else c # replaceFirst pat rep cs)"


section \<open>Double-precision arithmetic\<close>

text \<open>
  JavaScript numbers are IEEE 754 binary64 values.  Integers below \<open>2^53\<close> (token counts,
  message ids, millisecond time stamps) are exact, so sums and differences of them are
  modelled in \<open>int\<close>.  A quotient, and everything computed from it, is rounded after
  every operation: \<open>fl x\<close> is the binary64 value nearest to the rational \<open>x\<close>, ties to the
  even significand (53 significant bits; the exponent range is not bounded, so overflow
  and subnormal numbers, which need magnitudes beyond \<open>10^308\<close> or below \<open>10^-307\<close>, are
  not modelled).  \<open>binExponent x\<close> is the \<open>e\<close> with \<open>2^e \<le> |x| < 2^(e+1)\<close>.
  \<^verbatim>\<open>Math.round\<close> returns the nearest integer, a tie going up.
\<close>

definition roundHalfEven :: "rat \<Rightarrow> int" where
  "roundHalfEven x =
     (let f = \<lfloor>x\<rfloor>; d = x - of_int f
      in if d < 1 / 2 then f
         else if 1 / 2 < d then f + 1
         else if even f then f else f + 1)"

definition binExponent :: "rat \<Rightarrow> int" where
  "binExponent x =
     (let (p, q) = quotient_of \<bar>x\<bar>;
          k = bitlen p - bitlen q
      in if power_int 2 k \<le> \<bar>x\<bar> then k else k - 1)"

definition fl :: "rat \<Rightarrow> rat" where
  "fl x =
     (if x = 0 then 0
      else let e = binExponent x - 52
           in of_int (roundHalfEven (x / power_int 2 e)) * power_int 2 e)"

definition mathRound :: "rat \<Rightarrow> int" where
  "mathRound x = \<lfloor>x + 1 / 2\<rfloor>"

section \<open>Settings, host and state\<close>

text \<open>
  \<open>settings\<close> holds the fields of the extension's settings object that the modelled
  functions read; \<open>profiles\<close> is the list of connection profiles of the host's
  connection manager (id and \<^verbatim>\<open>max-tokens\<close>).  The object is the default settings of
  \<^verbatim>\<open>settings.js\<close> overlaid with the saved ones.  The defaults have no
  \<^verbatim>\<open>enable_llm_retrieval\<close> and no \<^verbatim>\<open>retrieval_query_prompt\<close>, and no control of the
  settings panel sets them: \<open>enable_llm_retrieval\<close> is the truth value of the field
  (\<open>False\<close> when it is missing), and a missing prompt is \<open>None\<close>.
\<close>

record settings =
  summarization_profile :: string
  profiles :: "(string \<times> nat option) list"
  summary_prompt :: string
  scene_summary_prompt :: string
  retrieval_query_prompt :: "string option"
  auto_hide_summarized :: bool
  keep_recent_count :: int
  hide_summarized_scenes :: bool
  replace_with_summary :: bool
  storage_mode :: string
  enable_llm_retrieval :: bool
  max_retrieved_memories :: int

text \<open>
  The values that cross the border to the host.  A call of the host returns a value or
  raises one.  Of a raised value the code reads only \<^verbatim>\<open>err.message\<close>, which itself raises
  a \<^verbatim>\<open>TypeError\<close> when the value is \<^verbatim>\<open>null\<close> or \<^verbatim>\<open>undefined\<close> (a promise rejected without
  a reason): \<open>NullishValue\<close>; every other raised value is an \<open>ErrorValue\<close>.

  The response of a request is any JavaScript value.  \<^verbatim>\<open>generateText\<close> reads it with
  \<^verbatim>\<open>response?.content || response || ''\<close>, which tells four kinds apart:
  \<^item> \<open>FalsyResponse\<close>: \<^verbatim>\<open>null\<close>, \<^verbatim>\<open>undefined\<close> or another falsy value that is not a string;
  \<^item> \<open>TextResponse s\<close>: the string \<open>s\<close>;
  \<^item> \<open>ContentResponse c\<close>: an object whose \<^verbatim>\<open>content\<close> is the string \<open>c\<close> (what the host's
    request service returns when it extracts the data of a completion);
  \<^item> \<open>OtherResponse\<close>: any other value (an object without a string \<^verbatim>\<open>content\<close>, a number).
  What the expression yields is a string, \<open>Str s\<close>, or a value that is not a string,
  \<open>NonString\<close>: a value without the methods \<^verbatim>\<open>substring\<close> and \<^verbatim>\<open>trim\<close>, so that calling
  them raises a \<^verbatim>\<open>TypeError\<close>.
\<close>

datatype thrown = ErrorValue | NullishValue

datatype 'a outcome = Returns 'a | Raises thrown

datatype response = FalsyResponse | TextResponse string | ContentResponse string | OtherResponse

datatype jsvalue = Str string | NonString

text \<open>
  The host (SillyTavern) is outside the repository.  Its state, of type \<open>'h\<close>, is passed
  through every call that reaches it:
  \<^item> \<open>sendRequest h profileId messages maxTokens\<close> is
    \<^verbatim>\<open>ConnectionManagerRequestService.sendRequest\<close>: the response, or the value raised,
    and the next host state;
  \<^item> \<open>parseReasoningFromString\<close> is the optional context function of that name, called
    with the value read from the response: it raises, or returns a falsy value (\<open>None\<close>),
    or returns an object, of which the code reads the \<^verbatim>\<open>content\<close>;
  \<^item> \<open>getTokenCountAsync\<close> and \<open>maxContext\<close> are the context's token counter and
    context size;
  \<^item> \<open>dateNow\<close> is \<^verbatim>\<open>Date.now()\<close>;
  \<^item> \<open>storeToLorebook h summary type ids\<close> stands for the lorebook path of
    \<^verbatim>\<open>storeMemory\<close> (\<^verbatim>\<open>getOrCreateLorebook\<close>, keyword generation, \<^verbatim>\<open>saveWorldInfo\<close>),
    called with the summary and the options (the type, and the message ids that the
    \<^verbatim>\<open>mesId\<close> and the title are made of): its body is one \<^verbatim>\<open>try\<close> whose handler returns
    \<^verbatim>\<open>null\<close>, and it touches only the host's world-info storage and the generator.
  Notifications, logging, DOM updates, \<^verbatim>\<open>saveChat\<close>, the send buttons and the rate
  limiter's \<^verbatim>\<open>setTimeout\<close> change nothing that the functions below read, and are taken
  to return; the world-info functions of the host are taken to return or to raise an
  \<open>ErrorValue\<close>.
\<close>

record 'h host =
  sendRequest :: "'h \<Rightarrow> string \<Rightarrow> (string \<times> string) list \<Rightarrow> nat \<Rightarrow> response outcome \<times> 'h"
  parseReasoningFromString :: "(jsvalue \<Rightarrow> jsvalue option outcome) option"
  getTokenCountAsync :: "string \<Rightarrow> nat"
  maxContext :: int
  dateNow :: "'h \<Rightarrow> int"
  storeToLorebook :: "'h \<Rightarrow> string \<Rightarrow> string \<Rightarrow> int list \<Rightarrow> 'h"

record 'h world =
  chat :: "message list"
  memoryCache :: "memory list"
  hostState :: 'h

text \<open>The errors.  The first three are the names the spec gives to the \<^verbatim>\<open>Error\<close> objects
  that the source throws: \<open>RangeError\<close> for \<^verbatim>\<open>Invalid message ID\<close> and
  \<^verbatim>\<open>Invalid message range\<close>, \<open>EmptyRangeError\<close> for \<^verbatim>\<open>No visible messages in range\<close>,
  \<open>ValueError\<close> for \<^verbatim>\<open>Interval must be at least 5 messages\<close>.  \<open>TypeError\<close> is the error
  that JavaScript raises when a property of \<^verbatim>\<open>null\<close> or \<^verbatim>\<open>undefined\<close> is read or a value
  that is not a function is called.  No statement of the source throws a
  \<open>GenerationError\<close>.\<close>

datatype error = RangeError | ValueError | EmptyRangeError | GenerationError | TypeError

section \<open>Generation gateway (\<^verbatim>\<open>summarizer.js\<close>, lines 37--123)\<close>

definition getMaxTokensForProfile :: "settings \<Rightarrow> string \<Rightarrow> nat" where
  "getMaxTokensForProfile S profileId =
     (case find (\<lambda>p. fst p = profileId) (profiles S) of
        Some (_, Some n) \<Rightarrow> if n \<noteq> 0 then n else 1024
      | _ \<Rightarrow> 1024)"

text \<open>The request: the system prompt, when it is not empty, and the content.\<close>

definition buildMessages :: "string \<Rightarrow> string \<Rightarrow> (string \<times> string) list" where
  "buildMessages content systemPrompt =
     (if systemPrompt \<noteq> [] then [(''system'', systemPrompt)] else []) @ [(''user'', content)]"

text \<open>Line 106, \<^verbatim>\<open>result = response?.content || response || ''\<close>.  An object whose
  \<^verbatim>\<open>content\<close> is the empty string is itself the value of the expression.\<close>

definition extractContent :: "response \<Rightarrow> jsvalue" where
  "extractContent response =
     (case response of
        FalsyResponse \<Rightarrow> Str []
      | TextResponse s \<Rightarrow> Str s
      | ContentResponse c \<Rightarrow> (if c \<noteq> [] then Str c else NonString)
      | OtherResponse \<Rightarrow> NonString)"

text \<open>Line 114, \<^verbatim>\<open>result.substring(0, 100)\<close>: the exception it raises, if any.\<close>

definition logResult :: "jsvalue \<Rightarrow> thrown option" where
  "logResult result = (case result of Str s \<Rightarrow> None | NonString \<Rightarrow> Some ErrorValue)"

text \<open>Lines 106 to 114, the rest of the \<^verbatim>\<open>try\<close> block once the request has returned: the
  value of \<^verbatim>\<open>result\<close> when the block is left, and the exception that left it, if any.\<close>

definition readResponse :: "'h host \<Rightarrow> response \<Rightarrow> jsvalue \<times> thrown option" where
  "readResponse H response =
     (let result = extractContent response
      in case parseReasoningFromString H of
           None \<Rightarrow> (result, logResult result)
         | Some parse \<Rightarrow>
             (case parse result of
                Raises t \<Rightarrow> (result, Some t)
              | Returns None \<Rightarrow> (result, logResult result)
              | Returns (Some content) \<Rightarrow> (content, logResult content)))"

text \<open>
  Lines 76 to 122 from the outcome of the request on.  A request that raises leaves
  \<^verbatim>\<open>result\<close> at \<^verbatim>\<open>''\<close>.  The handler reads \<^verbatim>\<open>err.message\<close>, which raises for a nullish
  value; \<^verbatim>\<open>return result.trim()\<close> stands after the \<^verbatim>\<open>try\<close> statement, so it raises when
  \<^verbatim>\<open>result\<close> is not a string.
\<close>

definition requestResult :: "'h host \<Rightarrow> response outcome \<Rightarrow> error + string" where
  "requestResult H out =
     (case (case out of
              Raises t \<Rightarrow> (Str [], Some t)
            | Returns response \<Rightarrow> readResponse H response) of
        (result, caught) \<Rightarrow>
          if caught = Some NullishValue then Inl TypeError
          else (case result of Str s \<Rightarrow> Inr (trim s) | NonString \<Rightarrow> Inl TypeError))"

text \<open>
  \<^verbatim>\<open>generateText\<close> returns \<^verbatim>\<open>''\<close> without a request when there is no active chat or
  no profile.
\<close>

definition generateText ::
  "'h host \<Rightarrow> settings \<Rightarrow> 'h world \<Rightarrow> string \<Rightarrow> string \<Rightarrow> (error + string) \<times> 'h world" where
  "generateText H S w content systemPrompt =
     (if chat w = [] then (Inr [], w)
      else let profileId = summarization_profile S in
        if profileId = [] then (Inr [], w)
        else let messages = buildMessages content systemPrompt;
                 maxTokens = getMaxTokensForProfile S profileId
             in case sendRequest H (hostState w) profileId messages maxTokens of
                  (out, h) \<Rightarrow> (requestResult H out, w\<lparr>hostState := h\<rparr>))"

text \<open>The request that \<^verbatim>\<open>generateText\<close> sends for a content and a system prompt, and
  the host's answer to it.\<close>

definition sentRequest ::
  "'h host \<Rightarrow> settings \<Rightarrow> 'h world \<Rightarrow> string \<Rightarrow> string \<Rightarrow> response outcome \<times> 'h" where
  "sentRequest H S w content systemPrompt =
     sendRequest H (hostState w) (summarization_profile S) (buildMessages content systemPrompt)
       (getMaxTokensForProfile S (summarization_profile S))"

section \<open>Memory store (\<^verbatim>\<open>memory-manager.js\<close>, lines 196--215)\<close>

text \<open>\<^verbatim>\<open>storeMemory(summary, null, options)\<close>: \<open>memType\<close> and \<open>memMesId\<close> are the type and
  the \<^verbatim>\<open>mesId\<close> of the options, \<open>titleIds\<close> the message ids in the title.\<close>

definition storeMemory ::
  "'h host \<Rightarrow> settings \<Rightarrow> 'h world \<Rightarrow> string \<Rightarrow> string \<Rightarrow> int \<Rightarrow> int list \<Rightarrow> 'h world" where
  "storeMemory H S w summaryText memType memMesId titleIds =
     (let memory = \<lparr>mem_type = memType, mem_mesId = Some memMesId, mem_summary = summaryText,
                     mem_keywords = [], mem_timestamp = dateNow H (hostState w)\<rparr>;
          w1 = w\<lparr>memoryCache := memoryCache w @ [memory]\<rparr>
      in if storage_mode S = ''lorebook'' \<or> storage_mode S = ''both''
         then w1\<lparr>hostState := storeToLorebook H (hostState w1) summaryText memType titleIds\<rparr>
         else w1)"

section \<open>Message summaries (\<^verbatim>\<open>summarizer.js\<close>, lines 131--221 and 375--406)\<close>

definition emptyExtra :: extra where
  "emptyExtra = \<lparr>tr_summary = None, tr_summarized_at = None, tr_scene_end = None,
                  tr_scene_summary = None, tr_scene_start = None\<rparr>"

text \<open>\<^verbatim>\<open>message?.extra?.tr_summary\<close> and its relatives, as truth values.\<close>

definition isMessageSummarized :: "message \<Rightarrow> bool" where
  "isMessageSummarized msg = (case extra msg of None \<Rightarrow> False | Some ex \<Rightarrow> truthyStr (tr_summary ex))"

definition hasSceneSummary :: "message \<Rightarrow> bool" where
  "hasSceneSummary msg =
     (case extra msg of None \<Rightarrow> False | Some ex \<Rightarrow> truthyStr (tr_scene_summary ex))"

definition isSceneEnd :: "message \<Rightarrow> bool" where
  "isSceneEnd msg = (case extra msg of None \<Rightarrow> False | Some ex \<Rightarrow> truthyBool (tr_scene_end ex))"

text \<open>The bag of a message, created empty when the message has none
  (\<^verbatim>\<open>if (!message.extra) message.extra = {}\<close>).\<close>

definition extraOf :: "message \<Rightarrow> extra" where
  "extraOf msg = (case extra msg of None \<Rightarrow> emptyExtra | Some ex \<Rightarrow> ex)"

definition messageContent :: "message \<Rightarrow> string" where
  "messageContent msg = name msg @ '': '' @ mes msg"

definition promptInstructions :: "string \<Rightarrow> string" where
  "promptInstructions template = trim (replaceFirst ''{{content}}'' [] template)"

text \<open>The host's \<^verbatim>\<open>hideChatMessageRange(idx, idx, false)\<close> hides one message from the
  context sent to the model: it sets \<^verbatim>\<open>is_system\<close>.\<close>

definition hideChatMessage :: "message list \<Rightarrow> nat \<Rightarrow> message list" where
  "hideChatMessage c idx = c[idx := (c ! idx)\<lparr>is_system := True\<rparr>]"

fun hideEach :: "message list \<Rightarrow> nat list \<Rightarrow> message list" where
  "hideEach c [] = c"
| "hideEach c (idx # rest) =
     (if \<not> is_system (c ! idx) then hideEach (hideChatMessage c idx) rest else hideEach c rest)"

definition autoHideSummarizedMessages :: "settings \<Rightarrow> message list \<Rightarrow> message list" where
  "autoHideSummarizedMessages S c =
     (let unhiddenCount = keep_recent_count S;
          summarizedIndices =
            filter (\<lambda>i. isMessageSummarized (c ! i) \<and> \<not> is_system (c ! i)) [0 ..< length c]
      in if summarizedIndices = [] then c
         else let hideCount = int (length summarizedIndices) - unhiddenCount
              in if hideCount \<le> 0 then c
                 else hideEach c (take (nat hideCount) summarizedIndices))"

definition summarizeMessage ::
  "'h host \<Rightarrow> settings \<Rightarrow> 'h world \<Rightarrow> int \<Rightarrow> (error + string) \<times> 'h world" where
  "summarizeMessage H S w mesId =
     (if mesId < 0 \<or> mesId \<ge> int (length (chat w)) then (Inl RangeError, w)
      else let message = chat w ! nat mesId;
               content = messageContent message;
               systemPrompt = promptInstructions (summary_prompt S)
           in case generateText H S w content systemPrompt of
                (Inl e, w1) \<Rightarrow> (Inl e, w1)
              | (Inr summaryText, w1) \<Rightarrow>
                  if summaryText \<noteq> [] then
                    let message1 = chat w1 ! nat mesId;
                        ex = (extraOf message1)
                               \<lparr>tr_summary := Some summaryText,
                                tr_summarized_at := Some (dateNow H (hostState w1))\<rparr>;
                        w2 = w1\<lparr>chat := (chat w1)[nat mesId := message1\<lparr>extra := Some ex\<rparr>]\<rparr>;
                        w3 = storeMemory H S w2 summaryText ''message'' mesId [mesId];
                        w4 = (if auto_hide_summarized S
                              then w3\<lparr>chat := autoHideSummarizedMessages S (chat w3)\<rparr>
                              else w3)
                    in (Inr summaryText, w4)
                  else (Inr summaryText, w1))"

section \<open>Chunking (\<^verbatim>\<open>summarizer.js\<close>, lines 303--349)\<close>

text \<open>
  The first loop of \<^verbatim>\<open>summarizeInChunks\<close>.  Its state is the triple of \<^verbatim>\<open>chunks\<close>,
  \<^verbatim>\<open>currentChunk\<close> and \<^verbatim>\<open>currentTokens\<close>; a chunk is pushed as the text
  \<^verbatim>\<open>currentChunk.join('\n\n')\<close>.  \<open>groupLoop\<close> is the same loop pushing the array
  \<^verbatim>\<open>currentChunk\<close> itself, so that the units of every chunk can be named.
\<close>

definition chunkSeparator :: string where
  "chunkSeparator = [CHR 0x0A, CHR 0x0A]"

fun chunkLoop ::
  "(string \<Rightarrow> nat) \<Rightarrow> int \<Rightarrow> string list \<Rightarrow> string list \<times> string list \<times> int
     \<Rightarrow> string list \<times> string list \<times> int" where
  "chunkLoop getTokenCount maxTokens [] st = st"
| "chunkLoop getTokenCount maxTokens (msg # msgs) (chunks, currentChunk, currentTokens) =
     (let msgTokens = int (getTokenCount msg)
      in if currentTokens + msgTokens > maxTokens \<and> currentChunk \<noteq> []
         then chunkLoop getTokenCount maxTokens msgs
                (chunks @ [join chunkSeparator currentChunk], [msg], msgTokens)
         else chunkLoop getTokenCount maxTokens msgs
                (chunks, currentChunk @ [msg], currentTokens + msgTokens))"

definition splitIntoChunks :: "(string \<Rightarrow> nat) \<Rightarrow> int \<Rightarrow> string list \<Rightarrow> string list" where
  "splitIntoChunks getTokenCount maxTokens messages =
     (case chunkLoop getTokenCount maxTokens messages ([], [], 0) of
        (chunks, currentChunk, currentTokens) \<Rightarrow>
          if currentChunk \<noteq> [] then chunks @ [join chunkSeparator currentChunk] else chunks)"

fun groupLoop ::
  "(string \<Rightarrow> nat) \<Rightarrow> int \<Rightarrow> string list \<Rightarrow> string list list \<times> string list \<times> int
     \<Rightarrow> string list list \<times> string list \<times> int" where
  "groupLoop getTokenCount maxTokens [] st = st"
| "groupLoop getTokenCount maxTokens (msg # msgs) (groups, currentChunk, currentTokens) =
     (let msgTokens = int (getTokenCount msg)
      in if currentTokens + msgTokens > maxTokens \<and> currentChunk \<noteq> []
         then groupLoop getTokenCount maxTokens msgs (groups @ [currentChunk], [msg], msgTokens)
         else groupLoop getTokenCount maxTokens msgs
                (groups, currentChunk @ [msg], currentTokens + msgTokens))"

definition splitIntoGroups :: "(string \<Rightarrow> nat) \<Rightarrow> int \<Rightarrow> string list \<Rightarrow> string list list" where
  "splitIntoGroups getTokenCount maxTokens messages =
     (case groupLoop getTokenCount maxTokens messages ([], [], 0) of
        (groups, currentChunk, currentTokens) \<Rightarrow>
          if currentChunk \<noteq> [] then groups @ [currentChunk] else groups)"

text \<open>The token count of a group: the sum of the counts of its units.\<close>

definition groupTokens :: "(string \<Rightarrow> nat) \<Rightarrow> string list \<Rightarrow> int" where
  "groupTokens getTokenCount g = sum_list (map (\<lambda>u. int (getTokenCount u)) g)"

text \<open>The second loop: \<^verbatim>\<open>generateText\<close> is called on every chunk in turn, and the
  summaries that are not empty are collected.\<close>

fun summarizeEachChunk ::
  "'h host \<Rightarrow> settings \<Rightarrow> 'h world \<Rightarrow> string list \<Rightarrow> string list
     \<Rightarrow> (error + string list) \<times> 'h world" where
  "summarizeEachChunk H S w [] chunkSummaries = (Inr chunkSummaries, w)"
| "summarizeEachChunk H S w (c # cs) chunkSummaries =
     (case generateText H S w c (promptInstructions (scene_summary_prompt S)) of
        (Inl e, w1) \<Rightarrow> (Inl e, w1)
      | (Inr summaryText, w1) \<Rightarrow>
          summarizeEachChunk H S w1 cs
            (if summaryText \<noteq> [] then chunkSummaries @ [summaryText] else chunkSummaries))"

definition combineSeparator :: string where
  "combineSeparator = [CHR 0x0A, CHR 0x0A, CHR ''-'', CHR ''-'', CHR ''-'', CHR 0x0A, CHR 0x0A]"

definition summarizeInChunks ::
  "'h host \<Rightarrow> settings \<Rightarrow> 'h world \<Rightarrow> string list \<Rightarrow> int \<Rightarrow> (error + string) \<times> 'h world" where
  "summarizeInChunks H S w messages maxTokens =
     (let chunks = splitIntoChunks (getTokenCountAsync H) maxTokens messages
      in case summarizeEachChunk H S w chunks [] of
           (Inl e, w1) \<Rightarrow> (Inl e, w1)
         | (Inr chunkSummaries, w1) \<Rightarrow>
             if length chunkSummaries > 1
             then generateText H S w1 (join combineSeparator chunkSummaries)
                    (promptInstructions (scene_summary_prompt S))
             else (case chunkSummaries of [] \<Rightarrow> (Inr [], w1) | s # _ \<Rightarrow> (Inr s, w1)))"

section \<open>Scene summaries (\<^verbatim>\<open>summarizer.js\<close>, lines 229--298)\<close>

text \<open>The messages with indices \<open>startId\<close> to \<open>endId\<close>, both included.\<close>

definition chatRange :: "message list \<Rightarrow> int \<Rightarrow> int \<Rightarrow> message list" where
  "chatRange c startId endId = map (\<lambda>i. c ! nat i) [startId .. endId]"

text \<open>\<^verbatim>\<open>chat[i].is_system = true\<close> for \<open>startId \<le> i < endId\<close>.\<close>

definition hideRange :: "message list \<Rightarrow> int \<Rightarrow> int \<Rightarrow> message list" where
  "hideRange c startId endId =
     map (\<lambda>i. if startId \<le> int i \<and> int i < endId then (c ! i)\<lparr>is_system := True\<rparr> else c ! i)
       [0 ..< length c]"

definition summarizeScene ::
  "'h host \<Rightarrow> settings \<Rightarrow> 'h world \<Rightarrow> int \<Rightarrow> int \<Rightarrow> (error + string) \<times> 'h world" where
  "summarizeScene H S w startId endId =
     (if startId < 0 \<or> endId \<ge> int (length (chat w)) \<or> startId > endId then (Inl RangeError, w)
      else let messages =
                 map messageContent (filter (\<lambda>msg. \<not> is_system msg) (chatRange (chat w) startId endId))
        in if messages = [] then (Inl EmptyRangeError, w)
           else let content = join chunkSeparator messages;
                    maxTokens = maxContext H - 500;
                    tokenCount = int (getTokenCountAsync H content)
             in case (if tokenCount > maxTokens then summarizeInChunks H S w messages maxTokens
                      else generateText H S w content (promptInstructions (scene_summary_prompt S))) of
                  (Inl e, w1) \<Rightarrow> (Inl e, w1)
                | (Inr finalSummary, w1) \<Rightarrow>
                    if finalSummary \<noteq> [] then
                      let endMessage = chat w1 ! nat endId;
                          ex = (extraOf endMessage)
                                 \<lparr>tr_scene_end := Some True,
                                  tr_scene_summary := Some finalSummary,
                                  tr_scene_start := Some startId,
                                  tr_summarized_at := Some (dateNow H (hostState w1))\<rparr>;
                          chat1 = (chat w1)[nat endId := endMessage\<lparr>extra := Some ex\<rparr>];
                          chat2 = (if hide_summarized_scenes S then hideRange chat1 startId endId
                                   else chat1);
                          w2 = w1\<lparr>chat := chat2\<rparr>;
                          w3 = storeMemory H S w2 finalSummary ''scene'' endId [startId, endId]
                      in (Inr finalSummary, w3)
                    else (Inr finalSummary, w1))"

section \<open>Batch operations (\<^verbatim>\<open>summarizer.js\<close>, lines 427--581)\<close>

text \<open>The indices \<^verbatim>\<open>summarizeAllMessages\<close> collects in \<^verbatim>\<open>toSummarize\<close>.\<close>

definition toSummarize :: "message list \<Rightarrow> nat list" where
  "toSummarize c =
     filter (\<lambda>i. \<not> is_system (c ! i) \<and> \<not> isMessageSummarized (c ! i)) [0 ..< length c]"

text \<open>The loop over \<^verbatim>\<open>toSummarize\<close>: \<^verbatim>\<open>summarized\<close> is incremented when the call of
  \<^verbatim>\<open>summarizeMessage\<close> returns, whatever it returns; an exception is caught and logged.\<close>

fun summarizeLoop ::
  "'h host \<Rightarrow> settings \<Rightarrow> 'h world \<Rightarrow> nat list \<Rightarrow> int \<Rightarrow> int \<times> 'h world" where
  "summarizeLoop H S w [] summarized = (summarized, w)"
| "summarizeLoop H S w (mesId # rest) summarized =
     (case summarizeMessage H S w (int mesId) of
        (Inr _, w1) \<Rightarrow> summarizeLoop H S w1 rest (summarized + 1)
      | (Inl _, w1) \<Rightarrow> summarizeLoop H S w1 rest summarized)"

definition summarizeAllMessages :: "'h host \<Rightarrow> settings \<Rightarrow> 'h world \<Rightarrow> int \<times> 'h world" where
  "summarizeAllMessages H S w =
     (let indices = toSummarize (chat w)
      in if indices = [] then (0, w) else summarizeLoop H S w indices 0)"

text \<open>The body of the loop of \<^verbatim>\<open>clearAllSummaries\<close> for one message: the message after
  the deletions, and the number of increments of \<^verbatim>\<open>cleared\<close>.\<close>

definition clearSummaryFields :: "extra \<Rightarrow> extra \<times> nat" where
  "clearSummaryFields ex =
     (if truthyStr (tr_summary ex)
      then (ex\<lparr>tr_summary := None,
               tr_summarized_at :=
                 (if truthyNum (tr_summarized_at ex) then None else tr_summarized_at ex)\<rparr>, 1)
      else (ex, 0))"

definition clearSceneFields :: "extra \<Rightarrow> extra \<times> nat" where
  "clearSceneFields ex =
     (if truthyStr (tr_scene_summary ex)
      then (ex\<lparr>tr_scene_end := None, tr_scene_summary := None, tr_scene_start := None,
               tr_summarized_at :=
                 (if truthyNum (tr_summarized_at ex) then None else tr_summarized_at ex)\<rparr>, 1)
      else (ex, 0))"

definition clearMessage :: "message \<Rightarrow> message \<times> nat" where
  "clearMessage msg =
     (case extra msg of
        None \<Rightarrow> (msg, 0)
      | Some ex \<Rightarrow>
          (case clearSummaryFields ex of
             (ex1, n1) \<Rightarrow>
               (case clearSceneFields ex1 of
                  (ex2, n2) \<Rightarrow> (msg\<lparr>extra := Some ex2\<rparr>, n1 + n2))))"

fun clearLoop :: "message list \<Rightarrow> nat \<Rightarrow> message list \<times> nat" where
  "clearLoop [] cleared = ([], cleared)"
| "clearLoop (msg # rest) cleared =
     (case clearMessage msg of
        (msg1, n) \<Rightarrow>
          (case clearLoop rest (cleared + n) of
             (rest1, cleared1) \<Rightarrow> (msg1 # rest1, cleared1)))"

definition clearAllSummaries :: "message list \<Rightarrow> nat \<times> message list" where
  "clearAllSummaries c = (case clearLoop c 0 of (c1, cleared) \<Rightarrow> (cleared, c1))"

text \<open>The first loop of \<^verbatim>\<open>autoFillChapters\<close>: the last index with a scene end, or \<open>-1\<close>.\<close>

definition lastSceneEndOf :: "message list \<Rightarrow> int" where
  "lastSceneEndOf c =
     foldl (\<lambda>lastSceneEnd i. if isSceneEnd (c ! i) then int i else lastSceneEnd) (- 1)
       [0 ..< length c]"

text \<open>The inner loop: the first scene end in the block, if there is one.\<close>

definition firstSceneEndIn :: "message list \<Rightarrow> int \<Rightarrow> int \<Rightarrow> int option" where
  "firstSceneEndIn c currentBlockStart potentialEnd =
     find (\<lambda>j. isSceneEnd (c ! nat j)) [currentBlockStart .. potentialEnd]"

text \<open>
  The \<^verbatim>\<open>while\<close> loop.  \<^verbatim>\<open>created\<close> is incremented when \<^verbatim>\<open>summarizeScene\<close> returns; when
  it throws, the block start moves on by one message.  The loop is a partial function:
  \<open>None\<close> stands for a loop that does not return.
\<close>

partial_function (option) autoFillLoop ::
  "'h host \<Rightarrow> settings \<Rightarrow> int \<Rightarrow> 'h world \<Rightarrow> int \<Rightarrow> int \<Rightarrow> (int \<times> 'h world) option" where
  "autoFillLoop H S interval w currentBlockStart created =
     (if currentBlockStart < int (length (chat w)) then
        (let potentialEnd = currentBlockStart + interval - 1
         in if potentialEnd \<ge> int (length (chat w)) then Some (created, w)
            else (case firstSceneEndIn (chat w) currentBlockStart potentialEnd of
                    Some j \<Rightarrow> autoFillLoop H S interval w (j + 1) created
                  | None \<Rightarrow>
                      (case summarizeScene H S w currentBlockStart potentialEnd of
                         (Inr _, w1) \<Rightarrow> autoFillLoop H S interval w1 (potentialEnd + 1) (created + 1)
                       | (Inl _, w1) \<Rightarrow> autoFillLoop H S interval w1 (currentBlockStart + 1) created)))
      else Some (created, w))"

definition autoFillChapters ::
  "'h host \<Rightarrow> settings \<Rightarrow> 'h world \<Rightarrow> int \<Rightarrow> ((error + int) \<times> 'h world) option" where
  "autoFillChapters H S w interval =
     (if interval = 0 \<or> interval < 5 then Some (Inl ValueError, w)
      else (case autoFillLoop H S interval w (lastSceneEndOf (chat w) + 1) 0 of
              None \<Rightarrow> None
            | Some (created, w1) \<Rightarrow> Some (Inr created, w1)))"

section \<open>Token accounting (\<^verbatim>\<open>token-tracker.js\<close>, lines 65--130)\<close>

record breakdownItem =
  item_mesId :: nat
  item_name :: string
  item_isUser :: bool
  tokens :: nat
  hasSummary :: bool
  summaryTokens :: nat
  savings :: int

record totalSavings =
  original :: int
  current :: int
  saved :: int
  savedPercent :: int
  summarizedCount :: nat
  potentialSaved :: int
  totalSummaries :: nat

text \<open>The entry of the breakdown for message \<open>i\<close>; system messages are skipped.\<close>

definition breakdownOf :: "(string \<Rightarrow> nat) \<Rightarrow> nat \<Rightarrow> message \<Rightarrow> breakdownItem" where
  "breakdownOf getTokenCount i msg =
     (let tokenCount = getTokenCount (mes msg);
          summarized = isMessageSummarized msg;
          summaryCount = (if summarized then getTokenCount (the (tr_summary (extraOf msg))) else 0)
      in \<lparr>item_mesId = i, item_name = name msg, item_isUser = is_user msg,
          tokens = tokenCount, hasSummary = summarized, summaryTokens = summaryCount,
          savings = (if summarized then int tokenCount - int summaryCount else 0)\<rparr>)"

definition getTokenBreakdown :: "(string \<Rightarrow> nat) \<Rightarrow> message list \<Rightarrow> breakdownItem list" where
  "getTokenBreakdown getTokenCount c =
     map (\<lambda>i. breakdownOf getTokenCount i (c ! i))
       (filter (\<lambda>i. \<not> is_system (c ! i)) [0 ..< length c])"

text \<open>The loop of \<^verbatim>\<open>getTotalSavings\<close> over the breakdown, with its three counters
  \<^verbatim>\<open>totalOriginal\<close>, \<^verbatim>\<open>totalWithSummaries\<close> and \<^verbatim>\<open>summarizedCount\<close>.\<close>

fun totalsLoop :: "bool \<Rightarrow> breakdownItem list \<Rightarrow> int \<times> int \<times> nat \<Rightarrow> int \<times> int \<times> nat" where
  "totalsLoop replace [] acc = acc"
| "totalsLoop replace (item # rest) (totalOriginal, totalWithSummaries, count) =
     (if hasSummary item \<and> replace
      then totalsLoop replace rest
             (totalOriginal + int (tokens item), totalWithSummaries + int (summaryTokens item),
              count + 1)
      else totalsLoop replace rest
             (totalOriginal + int (tokens item), totalWithSummaries + int (tokens item), count))"

text \<open>\<^verbatim>\<open>Math.round((1 - totalWithSummaries / totalOriginal) * 100)\<close> in double precision:
  the quotient, the difference and the product are rounded one after the other.\<close>

definition percentSaved :: "int \<Rightarrow> int \<Rightarrow> int" where
  "percentSaved totalOriginal totalWithSummaries =
     (if totalOriginal > 0
      then mathRound (fl (fl (1 - fl (of_int totalWithSummaries / of_int totalOriginal)) * 100))
      else 0)"

definition getTotalSavings :: "(string \<Rightarrow> nat) \<Rightarrow> bool \<Rightarrow> message list \<Rightarrow> totalSavings" where
  "getTotalSavings getTokenCount replace c =
     (let breakdown = getTokenBreakdown getTokenCount c
      in case totalsLoop replace breakdown (0, 0, 0) of
           (totalOriginal, totalWithSummaries, count) \<Rightarrow>
             \<lparr>original = totalOriginal,
              current = totalWithSummaries,
              saved = totalOriginal - totalWithSummaries,
              savedPercent = percentSaved totalOriginal totalWithSummaries,
              summarizedCount = count,
              potentialSaved = foldl (\<lambda>acc item. acc + savings item) 0 breakdown,
              totalSummaries = length (filter hasSummary breakdown)\<rparr>)"

section \<open>Retrieval (\<^verbatim>\<open>memory-manager.js\<close>, lines 491--547 and 851--863)\<close>







section \<open>Example hosts and settings\<close>

text \<open>Concrete settings and hosts on which the functions are evaluated below: a generator
  that raises an error on every request, one that answers every request with the same
  text, one that answers with an empty completion (an object whose \<^verbatim>\<open>content\<close> is the
  empty string), one that is rejected without a reason, one that answers with the text
  it was sent; a token counter that counts characters.\<close>

definition exampleSettings :: settings where
  "exampleSettings =
     \<lparr>summarization_profile = ''profile-1'', profiles = [], summary_prompt = ''Summarize: {{content}}'',
      scene_summary_prompt = ''Summarize the scene: {{content}}'',
      retrieval_query_prompt = None,
      auto_hide_summarized = False, keep_recent_count = 5, hide_summarized_scenes = False,
      replace_with_summary = True, storage_mode = ''metadata'', enable_llm_retrieval = False,
      max_retrieved_memories = 5\<rparr>"

definition raisingRequest ::
  "unit \<Rightarrow> string \<Rightarrow> (string \<times> string) list \<Rightarrow> nat \<Rightarrow> response outcome \<times> unit" where
  "raisingRequest h profileId messages maxTokens = (Raises ErrorValue, h)"

definition answeringRequest ::
  "unit \<Rightarrow> string \<Rightarrow> (string \<times> string) list \<Rightarrow> nat \<Rightarrow> response outcome \<times> unit" where
  "answeringRequest h profileId messages maxTokens = (Returns (TextResponse ''A short summary.''), h)"

definition emptyContentRequest ::
  "unit \<Rightarrow> string \<Rightarrow> (string \<times> string) list \<Rightarrow> nat \<Rightarrow> response outcome \<times> unit" where
  "emptyContentRequest h profileId messages maxTokens = (Returns (ContentResponse []), h)"

definition rejectedRequest ::
  "unit \<Rightarrow> string \<Rightarrow> (string \<times> string) list \<Rightarrow> nat \<Rightarrow> response outcome \<times> unit" where
  "rejectedRequest h profileId messages maxTokens = (Raises NullishValue, h)"


definition fixedClock :: "unit \<Rightarrow> int" where
  "fixedClock h = 1700000000000"

definition noLorebook :: "unit \<Rightarrow> string \<Rightarrow> string \<Rightarrow> int list \<Rightarrow> unit" where
  "noLorebook h summaryText memType titleIds = h"

definition raisingHost :: "unit host" where
  "raisingHost =
     \<lparr>sendRequest = raisingRequest, parseReasoningFromString = None, getTokenCountAsync = length,
      maxContext = 4096, dateNow = fixedClock, storeToLorebook = noLorebook\<rparr>"

definition answeringHost :: "unit host" where
  "answeringHost =
     \<lparr>sendRequest = answeringRequest, parseReasoningFromString = None, getTokenCountAsync = length,
      maxContext = 4096, dateNow = fixedClock, storeToLorebook = noLorebook\<rparr>"

definition emptyContentHost :: "unit host" where
  "emptyContentHost =
     \<lparr>sendRequest = emptyContentRequest, parseReasoningFromString = None,
      getTokenCountAsync = length, maxContext = 4096, dateNow = fixedClock,
      storeToLorebook = noLorebook\<rparr>"

definition rejectedHost :: "unit host" where
  "rejectedHost =
     \<lparr>sendRequest = rejectedRequest, parseReasoningFromString = None, getTokenCountAsync = length,
      maxContext = 4096, dateNow = fixedClock, storeToLorebook = noLorebook\<rparr>"


text \<open>A reasoning parser that turns its argument into a string before it looks for the
  reasoning block, as \<^verbatim>\<open>String(str).replace(...)\<close> does: an object becomes the text
  \<^verbatim>\<open>[object Object]\<close>.  The host with the empty completion and this parser.\<close>

definition stringifyingParser :: "jsvalue \<Rightarrow> jsvalue option outcome" where
  "stringifyingParser v =
     Returns (Some (case v of Str s \<Rightarrow> Str s | NonString \<Rightarrow> Str ''[object Object]''))"

definition stringifyingHost :: "unit host" where
  "stringifyingHost = emptyContentHost\<lparr>parseReasoningFromString := Some stringifyingParser\<rparr>"

text \<open>
  A host that keeps a record: \<open>recording H\<close> behaves as \<open>H\<close> does, and its state holds,
  beside the state of \<open>H\<close>, the list of the requests sent so far (the profile, the
  messages and the token limit of each).
\<close>

type_synonym request = "string \<times> (string \<times> string) list \<times> nat"

definition recording :: "'h host \<Rightarrow> ('h \<times> request list) host" where
  "recording H =
     \<lparr>sendRequest = (\<lambda>st profileId messages maxTokens.
        (fst (sendRequest H (fst st) profileId messages maxTokens),
         (snd (sendRequest H (fst st) profileId messages maxTokens),
          snd st @ [(profileId, messages, maxTokens)]))),
      parseReasoningFromString = parseReasoningFromString H,
      getTokenCountAsync = getTokenCountAsync H,
      maxContext = maxContext H,
      dateNow = (\<lambda>st. dateNow H (fst st)),
      storeToLorebook = (\<lambda>st summaryText memType titleIds.
        (storeToLorebook H (fst st) summaryText memType titleIds, snd st))\<rparr>"

definition requestLog :: "('h \<times> request list) world \<Rightarrow> request list" where
  "requestLog w = snd (hostState w)"


definition plainMessage :: "string \<Rightarrow> string \<Rightarrow> message" where
  "plainMessage author body =
     \<lparr>name = author, mes = body, is_system = False, is_user = False, extra = None\<rparr>"

text \<open>A message that carries a message summary and a scene summary; a message whose summary
  was edited to the empty text (\<^verbatim>\<open>editSummary\<close> in \<^verbatim>\<open>messages.js\<close> stores the text of
  the input box and a time stamp); a message of 40 characters with a summary of 17.\<close>

definition bothSummariesMessage :: message where
  "bothSummariesMessage =
     \<lparr>name = ''Ann'', mes = ''Hello there'', is_system = False, is_user = True,
      extra = Some \<lparr>tr_summary = Some ''greeting'', tr_summarized_at = Some 1700000000000,
                    tr_scene_end = Some True, tr_scene_summary = Some ''Ann says hello'',
                    tr_scene_start = Some 0\<rparr>\<rparr>"

definition emptySummaryMessage :: message where
  "emptySummaryMessage =
     \<lparr>name = ''Bob'', mes = ''Hi'', is_system = False, is_user = False,
      extra = Some \<lparr>tr_summary = Some [], tr_summarized_at = Some 1700000000000,
                    tr_scene_end = None, tr_scene_summary = None, tr_scene_start = None\<rparr>\<rparr>"

definition tieMessage :: message where
  "tieMessage =
     \<lparr>name = ''Ann'', mes = replicate 40 CHR ''a'', is_system = False, is_user = True,
      extra = Some \<lparr>tr_summary = Some (replicate 17 CHR ''b''),
                    tr_summarized_at = Some 1700000000000,
                    tr_scene_end = None, tr_scene_summary = None, tr_scene_start = None\<rparr>\<rparr>"

text \<open>A chat of one message, the state without an active chat, and settings without a
  summarization profile.\<close>

definition oneMessageWorld :: "unit world" where
  "oneMessageWorld = \<lparr>chat = [plainMessage ''Ann'' ''Hello there''], memoryCache = [], hostState = ()\<rparr>"

definition emptyWorld :: "unit world" where
  "emptyWorld = \<lparr>chat = [], memoryCache = [], hostState = ()\<rparr>"

definition noProfileSettings :: settings where
  "noProfileSettings = exampleSettings\<lparr>summarization_profile := []\<rparr>"

text \<open>The text of the user message of a request: its last message.\<close>

definition requestContent :: "request \<Rightarrow> string" where
  "requestContent r = snd (last (fst (snd r)))"



text \<open>A chat of two visible messages without summaries, with a plain host state and with
  an empty record of requests.\<close>

definition twoMessageWorld :: "unit world" where
  "twoMessageWorld =
     \<lparr>chat = [plainMessage ''Ann'' ''Hello there'', plainMessage ''Bob'' ''Good morning''],
      memoryCache = [], hostState = ()\<rparr>"

definition twoRecordedWorld :: "(unit \<times> request list) world" where
  "twoRecordedWorld =
     \<lparr>chat = [plainMessage ''Ann'' ''Hello there'', plainMessage ''Bob'' ''Good morning''],
      memoryCache = [], hostState = ((), [])\<rparr>"










text \<open>Two chats of 45 messages without scene ends: all messages visible, and the first
  twenty hidden (system messages).\<close>

definition hiddenMessage :: message where
  "hiddenMessage = \<lparr>name = ''Ann'', mes = ''Hello there'', is_system = True, is_user = False, extra = None\<rparr>"

definition fortyFiveWorld :: "unit world" where
  "fortyFiveWorld =
     \<lparr>chat = replicate 45 (plainMessage ''Ann'' ''Hello there''), memoryCache = [], hostState = ()\<rparr>"

definition hiddenStartWorld :: "unit world" where
  "hiddenStartWorld =
     \<lparr>chat = replicate 20 hiddenMessage @ replicate 25 (plainMessage ''Ann'' ''Hello there''),
      memoryCache = [], hostState = ()\<rparr>"

section \<open>Properties of the double-precision model\<close>

lemma roundHalfEven_cases: "roundHalfEven x = \<lfloor>x\<rfloor> \<or> roundHalfEven x = \<lfloor>x\<rfloor> + 1"
  by (simp add: roundHalfEven_def Let_def)

lemma roundHalfEven_le:
  assumes "x \<le> of_int M"
  shows "roundHalfEven x \<le> M"
proof -
  have f: "\<lfloor>x\<rfloor> \<le> M"
    using assms by (simp add: floor_le_iff)
  show ?thesis
  proof (cases "\<lfloor>x\<rfloor> < M")
    case True
    then show ?thesis
      using roundHalfEven_cases [of x] by auto
  next
    case False
    with f have eq: "\<lfloor>x\<rfloor> = M" by simp
    have "of_int \<lfloor>x\<rfloor> \<le> x" by simp
    with eq assms have "x = of_int M" by simp
    then show ?thesis
      by (simp add: roundHalfEven_def)
  qed
qed

lemma roundHalfEven_nonneg: "0 \<le> x \<Longrightarrow> 0 \<le> roundHalfEven x"
  using roundHalfEven_cases [of x] by (auto simp: zero_le_floor)

lemma roundHalfEven_nonpos: "x \<le> 0 \<Longrightarrow> roundHalfEven x \<le> 0"
  using roundHalfEven_le [of x 0] by simp

lemma pow2_pos: "0 < power_int (2::rat) e"
  by (simp add: zero_less_power_int)

lemma fl_nonneg:
  assumes "0 \<le> x"
  shows "0 \<le> fl x"
proof (cases "x = 0")
  case True
  then show ?thesis by (simp add: fl_def)
next
  case False
  define e where "e = binExponent x - 52"
  have "0 \<le> x / power_int 2 e"
    using assms pow2_pos [of e] by simp
  then have "0 \<le> roundHalfEven (x / power_int 2 e)"
    by (rule roundHalfEven_nonneg)
  then have "0 \<le> (of_int (roundHalfEven (x / power_int 2 e)) :: rat) * power_int 2 e"
    using pow2_pos [of e] by simp
  then show ?thesis
    using False by (simp add: fl_def e_def Let_def)
qed

lemma fl_nonpos:
  assumes "x \<le> 0"
  shows "fl x \<le> 0"
proof (cases "x = 0")
  case True
  then show ?thesis by (simp add: fl_def)
next
  case False
  define e where "e = binExponent x - 52"
  have "x / power_int 2 e \<le> 0"
    using assms pow2_pos [of e] by (simp add: divide_le_0_iff)
  then have "roundHalfEven (x / power_int 2 e) \<le> 0"
    by (rule roundHalfEven_nonpos)
  then have "(of_int (roundHalfEven (x / power_int 2 e)) :: rat) * power_int 2 e \<le> 0"
    using pow2_pos [of e] by (simp add: mult_le_0_iff)
  then show ?thesis
    using False by (simp add: fl_def e_def Let_def)
qed

text \<open>The exponent is not too large: \<open>2 ^ binExponent x \<le> |x|\<close>.\<close>

lemma binExponent_lower:
  assumes "x \<noteq> 0"
  shows "power_int 2 (binExponent x) \<le> \<bar>x\<bar>"
proof -
  obtain p q where pq: "quotient_of \<bar>x\<bar> = (p, q)"
    by (cases "quotient_of \<bar>x\<bar>")
  have q: "0 < q" using pq by (rule quotient_of_denom_pos)
  have x: "\<bar>x\<bar> = of_int p / of_int q" using pq by (rule quotient_of_div)
  have "0 < \<bar>x\<bar>" using assms by simp
  with x q have p: "0 < p"
    by (simp add: zero_less_divide_iff)
  define k where "k = bitlen p - bitlen q"
  show ?thesis
  proof (cases "power_int 2 k \<le> \<bar>x\<bar>")
    case True
    then show ?thesis
      by (simp add: binExponent_def pq k_def)
  next
    case False
    then have E: "binExponent x = k - 1"
      by (simp add: binExponent_def pq k_def)
    have bp: "(2::int) ^ nat (bitlen p - 1) \<le> p" using bitlen_bounds [OF p] by simp
    have bq: "q < (2::int) ^ nat (bitlen q)" using bitlen_bounds [OF q] by simp
    have bp1: "1 \<le> bitlen p" using p by (simp add: bitlen_alt_def)
    have bq0: "0 \<le> bitlen q" by (rule bitlen_nonneg)
    have P: "power_int (2::rat) (bitlen p - 1) \<le> of_int p"
    proof -
      have "(of_int ((2::int) ^ nat (bitlen p - 1)) :: rat) \<le> of_int p"
        using bp by (simp only: of_int_le_iff)
      moreover have "power_int (2::rat) (bitlen p - 1) = 2 ^ nat (bitlen p - 1)"
        using bp1 by (simp add: power_int_def)
      ultimately show ?thesis by simp
    qed
    have Q: "of_int q \<le> power_int (2::rat) (bitlen q)"
    proof -
      have "(of_int q :: rat) \<le> of_int ((2::int) ^ nat (bitlen q))"
        using bq by (simp only: of_int_le_iff)
      moreover have "power_int (2::rat) (bitlen q) = 2 ^ nat (bitlen q)"
        using bq0 by (simp add: power_int_def)
      ultimately show ?thesis by simp
    qed
    have "power_int (2::rat) (k - 1) * of_int q \<le> power_int 2 (k - 1) * power_int 2 (bitlen q)"
      using Q pow2_pos [of "k - 1"] by (simp add: mult_left_mono)
    also have "\<dots> = power_int 2 (k - 1 + bitlen q)"
      by (simp add: power_int_add)
    also have "k - 1 + bitlen q = bitlen p - 1"
      by (simp add: k_def)
    finally have "power_int (2::rat) (k - 1) * of_int q \<le> of_int p"
      using P by simp
    then have "power_int (2::rat) (k - 1) \<le> of_int p / of_int q"
      using q by (simp add: pos_le_divide_eq)
    then show ?thesis
      by (simp add: E x)
  qed
qed

text \<open>Rounding does not cross an integer below \<open>2^53\<close>: such an integer is a double.\<close>

lemma fl_le_of_int:
  assumes "x \<le> of_int N" "0 \<le> N" "of_int N < power_int (2::rat) 53"
  shows "fl x \<le> of_int N"
proof (cases "x \<le> 0")
  case True
  then have "fl x \<le> 0" by (rule fl_nonpos)
  also have "(0::rat) \<le> of_int N" using assms(2) by simp
  finally show ?thesis .
next
  case False
  then have pos: "0 < x" by simp
  define e where "e = binExponent x - 52"
  have "power_int (2::rat) (binExponent x) \<le> \<bar>x\<bar>"
    using pos by (intro binExponent_lower) simp
  also have "\<bar>x\<bar> < power_int 2 53"
    using pos assms by simp
  finally have "binExponent x < 53"
    by (rule power_int_le_imp_less_exp [rotated]) simp_all
  then have e: "e \<le> 0" by (simp add: e_def)
  define m where "m = nat (- e)"
  have pe: "power_int (2::rat) e = 1 / 2 ^ m"
    using e by (cases "e = 0") (simp_all add: power_int_def m_def field_simps)
  have "x / power_int 2 e = x * 2 ^ m"
    by (simp add: pe)
  also have "\<dots> \<le> of_int N * 2 ^ m"
    using assms(1) by (simp add: mult_right_mono)
  also have "\<dots> = of_int (N * 2 ^ m)" by simp
  finally have "roundHalfEven (x / power_int 2 e) \<le> N * 2 ^ m"
    by (rule roundHalfEven_le)
  then have "(of_int (roundHalfEven (x / power_int 2 e)) :: rat) \<le> of_int (N * 2 ^ m)"
    by (simp only: of_int_le_iff)
  then have "of_int (roundHalfEven (x / power_int 2 e)) * power_int 2 e
      \<le> of_int (N * 2 ^ m) * power_int (2::rat) e"
    using pow2_pos [of e] by (simp add: mult_right_mono)
  also have "of_int (N * 2 ^ m) * power_int (2::rat) e = of_int N"
    by (simp add: pe)
  finally show ?thesis
    using pos by (simp add: fl_def e_def Let_def)
qed

lemma percent_le_100:
  assumes "0 \<le> r"
  shows "mathRound (fl (fl (1 - fl r) * 100)) \<le> 100"
proof -
  have "0 \<le> fl r" using assms by (rule fl_nonneg)
  then have "1 - fl r \<le> of_int 1" by simp
  then have "fl (1 - fl r) \<le> of_int 1"
    by (rule fl_le_of_int) (simp_all add: power_int_def)
  then have "fl (1 - fl r) * 100 \<le> of_int 100" by simp
  then have "fl (fl (1 - fl r) * 100) \<le> of_int 100"
    by (rule fl_le_of_int) (simp_all add: power_int_def)
  then show ?thesis
    by (simp add: mathRound_def floor_le_iff)
qed

section \<open>Properties of the chapter timeline\<close>

lemma removeChapter_nth:
  assumes "1 \<le> n" "n \<le> int (length tls)"
  shows "snd (removeChapter tls n) ! k = (if k < nat (n - 1) then tls ! k else tls ! Suc k)"
proof -
  have len: "length (take (nat (n - 1)) tls) = nat (n - 1)"
    using assms by simp
  have n: "nat n = Suc (nat (n - 1))"
    using assms by simp
  show ?thesis
  proof (cases "k < nat (n - 1)")
    case True
    then show ?thesis
      using assms by (simp add: removeChapter_def nth_append)
  next
    case False
    then have "snd (removeChapter tls n) ! k = drop (nat n) tls ! (k - nat (n - 1))"
      using assms len by (simp add: removeChapter_def nth_append)
    also have "\<dots> = tls ! (nat n + (k - nat (n - 1)))"
      using assms by simp
    also have "nat n + (k - nat (n - 1)) = Suc k"
      using False n by simp
    finally show ?thesis
      using False by simp
  qed
qed

text \<open>
  Claim C10.  \<^verbatim>\<open>addChapter(summary, startMsgId, endMsgId)\<close> appends one chapter and
  returns the new chapter count \<open>n\<close>; afterwards \<^verbatim>\<open>getChapterCount()\<close> is the previous
  count plus one and \<^verbatim>\<open>getChapter(n)\<close> is the chapter with exactly the given summary,
  start id and end id (numbered \<open>n\<close>), while the chapters stored before keep their places.
\<close>

theorem addChapter_roundtrip:
  "fst (addChapter tls s a b) = getChapterCount tls + 1
   \<and> snd (addChapter tls s a b) = tls @ [\<lparr>summary = s, startMsgId = a, endMsgId = b\<rparr>]
   \<and> getChapterCount (snd (addChapter tls s a b)) = getChapterCount tls + 1
   \<and> getChapter (snd (addChapter tls s a b)) (fst (addChapter tls s a b))
       = Some (\<lparr>summary = s, startMsgId = a, endMsgId = b\<rparr>, getChapterCount tls + 1)"
  by (simp add: addChapter_def getChapterCount_def getChapter_def Let_def nth_append)

text \<open>
  Claim C9.  Editing chapter \<open>n\<close> with \<open>1 \<le> n \<le> count\<close> reports success and replaces
  only the summary text of that chapter: every chapter keeps its start and end message
  id and every other chapter is unchanged.  For a number \<open>n'\<close> outside \<open>[1, count]\<close>
  the edit reports failure and the removal reports \<^verbatim>\<open>null\<close>, and the timeline is
  unchanged.  Removing chapter \<open>n\<close> returns the entry at that position and leaves the
  other entries as they were, those behind it moved one position forward; removing
  chapter 2 of 3 leaves the former chapters 1 and 3 as chapters 1 and 2.
\<close>

theorem updateChapter_removeChapter_frame:
  "(1 \<le> n \<and> n \<le> getChapterCount tls \<longrightarrow>
      fst (updateChapter tls n s) = True
      \<and> length (snd (updateChapter tls n s)) = length tls
      \<and> summary (snd (updateChapter tls n s) ! nat (n - 1)) = s
      \<and> (\<forall>k < length tls.
            startMsgId (snd (updateChapter tls n s) ! k) = startMsgId (tls ! k)
            \<and> endMsgId (snd (updateChapter tls n s) ! k) = endMsgId (tls ! k)
            \<and> (k \<noteq> nat (n - 1) \<longrightarrow> snd (updateChapter tls n s) ! k = tls ! k))
      \<and> fst (removeChapter tls n) = Some (tls ! nat (n - 1))
      \<and> int (length (snd (removeChapter tls n))) = getChapterCount tls - 1
      \<and> (\<forall>k < nat (n - 1). snd (removeChapter tls n) ! k = tls ! k)
      \<and> (\<forall>k \<ge> nat (n - 1). snd (removeChapter tls n) ! k = tls ! Suc k))
   \<and> (n' < 1 \<or> getChapterCount tls < n' \<longrightarrow>
        updateChapter tls n' s = (False, tls) \<and> removeChapter tls n' = (None, tls))
   \<and> removeChapter [c1, c2, c3] 2 = (Some c2, [c1, c3])
   \<and> getChapter (snd (removeChapter [c1, c2, c3] 2)) 1 = Some (c1, 1)
   \<and> getChapter (snd (removeChapter [c1, c2, c3] 2)) 2 = Some (c3, 2)"
proof -
  have inrange: "fst (updateChapter tls n s) = True
      \<and> length (snd (updateChapter tls n s)) = length tls
      \<and> summary (snd (updateChapter tls n s) ! nat (n - 1)) = s
      \<and> (\<forall>k < length tls.
            startMsgId (snd (updateChapter tls n s) ! k) = startMsgId (tls ! k)
            \<and> endMsgId (snd (updateChapter tls n s) ! k) = endMsgId (tls ! k)
            \<and> (k \<noteq> nat (n - 1) \<longrightarrow> snd (updateChapter tls n s) ! k = tls ! k))
      \<and> fst (removeChapter tls n) = Some (tls ! nat (n - 1))
      \<and> int (length (snd (removeChapter tls n))) = getChapterCount tls - 1
      \<and> (\<forall>k < nat (n - 1). snd (removeChapter tls n) ! k = tls ! k)
      \<and> (\<forall>k \<ge> nat (n - 1). snd (removeChapter tls n) ! k = tls ! Suc k)"
    if n: "1 \<le> n" "n \<le> getChapterCount tls"
  proof -
    have le: "n \<le> int (length tls)"
      using n by (simp add: getChapterCount_def)
    have upd: "updateChapter tls n s
        = (True, tls[nat (n - 1) := (tls ! nat (n - 1))\<lparr>summary := s\<rparr>])"
      using n(1) le by (simp add: updateChapter_def)
    have idx: "nat (n - 1) < length tls"
      using n(1) le by simp
    have u: "fst (updateChapter tls n s) = True
      \<and> length (snd (updateChapter tls n s)) = length tls
      \<and> summary (snd (updateChapter tls n s) ! nat (n - 1)) = s"
      using idx by (simp add: upd)
    have frame: "\<forall>k < length tls.
            startMsgId (snd (updateChapter tls n s) ! k) = startMsgId (tls ! k)
            \<and> endMsgId (snd (updateChapter tls n s) ! k) = endMsgId (tls ! k)
            \<and> (k \<noteq> nat (n - 1) \<longrightarrow> snd (updateChapter tls n s) ! k = tls ! k)"
      using idx by (auto simp: upd nth_list_update)
    have r1: "fst (removeChapter tls n) = Some (tls ! nat (n - 1))"
      using n(1) le by (simp add: removeChapter_def)
    have r2: "int (length (snd (removeChapter tls n))) = getChapterCount tls - 1"
      using n(1) le by (simp add: removeChapter_def getChapterCount_def min_def)
    have r3: "\<forall>k < nat (n - 1). snd (removeChapter tls n) ! k = tls ! k"
      using removeChapter_nth [OF n(1) le] by simp
    have r4: "\<forall>k \<ge> nat (n - 1). snd (removeChapter tls n) ! k = tls ! Suc k"
      using removeChapter_nth [OF n(1) le] by simp
    from u frame r1 r2 r3 r4 show ?thesis by blast
  qed
  have outrange: "updateChapter tls n' s = (False, tls) \<and> removeChapter tls n' = (None, tls)"
    if "n' < 1 \<or> getChapterCount tls < n'"
    using that by (auto simp: updateChapter_def removeChapter_def getChapterCount_def)
  have scen: "removeChapter [c1, c2, c3] 2 = (Some c2, [c1, c3])"
    by (simp add: removeChapter_def)
  have g1: "getChapter (snd (removeChapter [c1, c2, c3] 2)) 1 = Some (c1, 1)"
    by (simp add: scen getChapter_def)
  have g2: "getChapter (snd (removeChapter [c1, c2, c3] 2)) 2 = Some (c3, 2)"
    by (simp add: scen getChapter_def)
  from inrange outrange scen g1 g2 show ?thesis by blast
qed

theorem updateChapter_removeChapter_frame_witness:
  "(1::int) \<le> 2
   \<and> 2 \<le> getChapterCount
        [\<lparr>summary = ''one'', startMsgId = 0, endMsgId = 19\<rparr>,
         \<lparr>summary = ''two'', startMsgId = 20, endMsgId = 39\<rparr>,
         \<lparr>summary = ''three'', startMsgId = 40, endMsgId = 59\<rparr>]
   \<and> (5::int) > getChapterCount
        [\<lparr>summary = ''one'', startMsgId = 0, endMsgId = 19\<rparr>,
         \<lparr>summary = ''two'', startMsgId = 20, endMsgId = 39\<rparr>,
         \<lparr>summary = ''three'', startMsgId = 40, endMsgId = 59\<rparr>]
   \<and> snd (updateChapter
        [\<lparr>summary = ''one'', startMsgId = 0, endMsgId = 19\<rparr>,
         \<lparr>summary = ''two'', startMsgId = 20, endMsgId = 39\<rparr>,
         \<lparr>summary = ''three'', startMsgId = 40, endMsgId = 59\<rparr>] 2 ''new'')
       = [\<lparr>summary = ''one'', startMsgId = 0, endMsgId = 19\<rparr>,
          \<lparr>summary = ''new'', startMsgId = 20, endMsgId = 39\<rparr>,
          \<lparr>summary = ''three'', startMsgId = 40, endMsgId = 59\<rparr>]
   \<and> updateChapter
        [\<lparr>summary = ''one'', startMsgId = 0, endMsgId = 19\<rparr>,
         \<lparr>summary = ''two'', startMsgId = 20, endMsgId = 39\<rparr>,
         \<lparr>summary = ''three'', startMsgId = 40, endMsgId = 59\<rparr>] 5 ''new''
       = (False,
          [\<lparr>summary = ''one'', startMsgId = 0, endMsgId = 19\<rparr>,
           \<lparr>summary = ''two'', startMsgId = 20, endMsgId = 39\<rparr>,
           \<lparr>summary = ''three'', startMsgId = 40, endMsgId = 59\<rparr>])
   \<and> fst (removeChapter
        [\<lparr>summary = ''one'', startMsgId = 0, endMsgId = 19\<rparr>,
         \<lparr>summary = ''two'', startMsgId = 20, endMsgId = 39\<rparr>,
         \<lparr>summary = ''three'', startMsgId = 40, endMsgId = 59\<rparr>] 2)
       = Some \<lparr>summary = ''two'', startMsgId = 20, endMsgId = 39\<rparr>"
  using updateChapter_removeChapter_frame
    [of 2 "[\<lparr>summary = ''one'', startMsgId = 0, endMsgId = 19\<rparr>,
            \<lparr>summary = ''two'', startMsgId = 20, endMsgId = 39\<rparr>,
            \<lparr>summary = ''three'', startMsgId = 40, endMsgId = 59\<rparr>]" "''new''" 5]
  by (simp add: getChapterCount_def updateChapter_def)

section \<open>Clearing the summaries\<close>

lemma clearLoop_eq:
  "clearLoop ms n = (map (\<lambda>m. fst (clearMessage m)) ms, n + sum_list (map (\<lambda>m. snd (clearMessage m)) ms))"
  by (induction ms arbitrary: n) (auto split: prod.splits)

lemma clearMessage_count:
  "snd (clearMessage m) = (if isMessageSummarized m then 1 else 0) + (if hasSceneSummary m then 1 else 0)"
  by (auto simp: clearMessage_def clearSummaryFields_def clearSceneFields_def isMessageSummarized_def
      hasSceneSummary_def split: option.splits)

lemma sum_list_indicator:
  "sum_list (map (\<lambda>m. (if P m then 1 else 0) + (if Q m then 1 else (0::nat))) ms)
     = length (filter P ms) + length (filter Q ms)"
  by (induction ms) auto

lemma clearAllSummaries_eq:
  "clearAllSummaries c
     = (length (filter isMessageSummarized c) + length (filter hasSceneSummary c),
        map (\<lambda>m. fst (clearMessage m)) c)"
  by (simp add: clearAllSummaries_def clearLoop_eq clearMessage_count sum_list_indicator)

lemma clearMessage_frame:
  "name (fst (clearMessage m)) = name m \<and> mes (fst (clearMessage m)) = mes m
   \<and> is_system (fst (clearMessage m)) = is_system m \<and> is_user (fst (clearMessage m)) = is_user m"
  by (auto simp: clearMessage_def split: option.splits prod.splits)

lemma clearMessage_cleared:
  "\<not> isMessageSummarized (fst (clearMessage m)) \<and> \<not> hasSceneSummary (fst (clearMessage m))"
  by (auto simp: clearMessage_def clearSummaryFields_def clearSceneFields_def isMessageSummarized_def
      hasSceneSummary_def truthyStr_def split: option.splits)

lemma clearMessage_summary:
  "tr_summary (extraOf (fst (clearMessage m)))
     = (if isMessageSummarized m then None else tr_summary (extraOf m))"
  by (auto simp: clearMessage_def clearSummaryFields_def clearSceneFields_def isMessageSummarized_def
      extraOf_def split: option.splits)

lemma clearMessage_scene:
  "tr_scene_end (extraOf (fst (clearMessage m)))
     = (if hasSceneSummary m then None else tr_scene_end (extraOf m))
   \<and> tr_scene_summary (extraOf (fst (clearMessage m)))
     = (if hasSceneSummary m then None else tr_scene_summary (extraOf m))
   \<and> tr_scene_start (extraOf (fst (clearMessage m)))
     = (if hasSceneSummary m then None else tr_scene_start (extraOf m))"
  by (auto simp: clearMessage_def clearSummaryFields_def clearSceneFields_def hasSceneSummary_def
      extraOf_def split: option.splits)

lemma clearMessage_at:
  "tr_summarized_at (extraOf (fst (clearMessage m)))
     = (if (isMessageSummarized m \<or> hasSceneSummary m) \<and> truthyNum (tr_summarized_at (extraOf m))
        then None else tr_summarized_at (extraOf m))"
  by (auto simp: clearMessage_def clearSummaryFields_def clearSceneFields_def hasSceneSummary_def
      isMessageSummarized_def extraOf_def truthyNum_def split: option.splits)

lemma clearMessage_same:
  "\<not> isMessageSummarized m \<Longrightarrow> \<not> hasSceneSummary m \<Longrightarrow> fst (clearMessage m) = m"
  by (auto simp: clearMessage_def clearSummaryFields_def clearSceneFields_def hasSceneSummary_def
      isMessageSummarized_def split: option.splits)

text \<open>
  Claim C7, as the code has it.  \<^verbatim>\<open>clearAllSummaries\<close> keeps the messages and their
  name, text and flags.  From a message with a non-empty \<^verbatim>\<open>tr_summary\<close> it deletes
  \<^verbatim>\<open>tr_summary\<close>; from a message with a non-empty \<^verbatim>\<open>tr_scene_summary\<close> it deletes
  \<^verbatim>\<open>tr_scene_end\<close>, \<^verbatim>\<open>tr_scene_summary\<close> and \<^verbatim>\<open>tr_scene_start\<close>; in both cases it
  deletes a \<^verbatim>\<open>tr_summarized_at\<close> that is not zero.  Every other field and every other
  message stays as it is, so afterwards no message has a non-empty summary or scene
  summary.  The result is the number of summaries deleted: the number of messages with
  a non-empty summary plus the number of messages with a non-empty scene summary.
\<close>

theorem clearAllSummaries_effect:
  "length (snd (clearAllSummaries c)) = length c
   \<and> fst (clearAllSummaries c)
       = length (filter isMessageSummarized c) + length (filter hasSceneSummary c)
   \<and> (\<forall>i < length c.
         name (snd (clearAllSummaries c) ! i) = name (c ! i)
         \<and> mes (snd (clearAllSummaries c) ! i) = mes (c ! i)
         \<and> is_system (snd (clearAllSummaries c) ! i) = is_system (c ! i)
         \<and> is_user (snd (clearAllSummaries c) ! i) = is_user (c ! i)
         \<and> \<not> isMessageSummarized (snd (clearAllSummaries c) ! i)
         \<and> \<not> hasSceneSummary (snd (clearAllSummaries c) ! i)
         \<and> tr_summary (extraOf (snd (clearAllSummaries c) ! i))
             = (if isMessageSummarized (c ! i) then None else tr_summary (extraOf (c ! i)))
         \<and> tr_scene_end (extraOf (snd (clearAllSummaries c) ! i))
             = (if hasSceneSummary (c ! i) then None else tr_scene_end (extraOf (c ! i)))
         \<and> tr_scene_summary (extraOf (snd (clearAllSummaries c) ! i))
             = (if hasSceneSummary (c ! i) then None else tr_scene_summary (extraOf (c ! i)))
         \<and> tr_scene_start (extraOf (snd (clearAllSummaries c) ! i))
             = (if hasSceneSummary (c ! i) then None else tr_scene_start (extraOf (c ! i)))
         \<and> tr_summarized_at (extraOf (snd (clearAllSummaries c) ! i))
             = (if (isMessageSummarized (c ! i) \<or> hasSceneSummary (c ! i))
                   \<and> truthyNum (tr_summarized_at (extraOf (c ! i)))
                then None else tr_summarized_at (extraOf (c ! i)))
         \<and> (\<not> isMessageSummarized (c ! i) \<and> \<not> hasSceneSummary (c ! i)
              \<longrightarrow> snd (clearAllSummaries c) ! i = c ! i))"
  by (simp add: clearAllSummaries_eq clearMessage_frame clearMessage_cleared clearMessage_summary
      clearMessage_scene clearMessage_at clearMessage_same)


theorem clearAllSummaries_effect_witness:
  "(0::nat) < length [bothSummariesMessage, emptySummaryMessage]
   \<and> isMessageSummarized ([bothSummariesMessage, emptySummaryMessage] ! 0)
   \<and> hasSceneSummary ([bothSummariesMessage, emptySummaryMessage] ! 0)
   \<and> fst (clearAllSummaries [bothSummariesMessage, emptySummaryMessage]) = 2
   \<and> tr_summary (extraOf (snd (clearAllSummaries [bothSummariesMessage, emptySummaryMessage]) ! 0))
       = None
   \<and> tr_scene_end (extraOf (snd (clearAllSummaries [bothSummariesMessage, emptySummaryMessage]) ! 0))
       = None
   \<and> (1::nat) < length [bothSummariesMessage, emptySummaryMessage]
   \<and> \<not> isMessageSummarized ([bothSummariesMessage, emptySummaryMessage] ! 1)
   \<and> \<not> hasSceneSummary ([bothSummariesMessage, emptySummaryMessage] ! 1)
   \<and> snd (clearAllSummaries [bothSummariesMessage, emptySummaryMessage]) ! 1 = emptySummaryMessage"
proof -
  have h: "isMessageSummarized bothSummariesMessage \<and> hasSceneSummary bothSummariesMessage
      \<and> \<not> isMessageSummarized emptySummaryMessage \<and> \<not> hasSceneSummary emptySummaryMessage"
    by (simp add: isMessageSummarized_def hasSceneSummary_def bothSummariesMessage_def
        emptySummaryMessage_def truthyStr_def)
  show ?thesis
    using h clearAllSummaries_effect [of "[bothSummariesMessage, emptySummaryMessage]"]
    by (simp add: less_Suc_eq imp_disjL all_conj_distrib)
qed

text \<open>
  The claim as it is written fails twice.  The message that carries both summaries is
  one message, and the result is 2.  The message whose summary is the empty text keeps
  its \<^verbatim>\<open>tr_summary\<close> and its \<^verbatim>\<open>tr_summarized_at\<close>, and the result is 0.
\<close>

theorem clearAllSummaries_counterexample:
  "fst (clearAllSummaries [bothSummariesMessage]) = 2
   \<and> length [bothSummariesMessage] = 1
   \<and> clearAllSummaries [emptySummaryMessage] = (0, [emptySummaryMessage])
   \<and> tr_summary (extraOf emptySummaryMessage) = Some []
   \<and> tr_summarized_at (extraOf emptySummaryMessage) = Some 1700000000000"
  by (simp add: clearAllSummaries_def clearMessage_def clearSummaryFields_def clearSceneFields_def
      bothSummariesMessage_def emptySummaryMessage_def truthyStr_def truthyNum_def extraOf_def)

section \<open>Token accounting\<close>

lemma totalsLoop_eq:
  "totalsLoop r items (a, b, n)
     = (a + (\<Sum>item\<leftarrow>items. int (tokens item)),
        b + (\<Sum>item\<leftarrow>items. if hasSummary item \<and> r then int (summaryTokens item)
                                else int (tokens item)),
        n + length (filter (\<lambda>item. hasSummary item \<and> r) items))"
  by (induction items arbitrary: a b n) auto

lemma map_filter_nth:
  "map (\<lambda>i. F (c ! i)) (filter (\<lambda>i. P (c ! i)) [0 ..< length c]) = map F (filter P c)"
proof -
  have "map F (filter P c) = map F (filter P (map ((!) c) [0 ..< length c]))"
    by (simp add: map_nth)
  also have "\<dots> = map (\<lambda>i. F (c ! i)) (filter (\<lambda>i. P (c ! i)) [0 ..< length c])"
    by (simp add: filter_map o_def)
  finally show ?thesis by simp
qed

lemma breakdown_sum:
  "(\<Sum>item\<leftarrow>getTokenBreakdown cnt c. g (tokens item) (hasSummary item) (summaryTokens item))
     = (\<Sum>m\<leftarrow>filter (\<lambda>m. \<not> is_system m) c.
          (g (cnt (mes m)) (isMessageSummarized m)
             (if isMessageSummarized m then cnt (the (tr_summary (extraOf m))) else 0) :: int))"
proof -
  have "map (\<lambda>item. g (tokens item) (hasSummary item) (summaryTokens item)) (getTokenBreakdown cnt c)
      = map (\<lambda>i. g (cnt (mes (c ! i))) (isMessageSummarized (c ! i))
               (if isMessageSummarized (c ! i) then cnt (the (tr_summary (extraOf (c ! i)))) else 0))
          (filter (\<lambda>i. \<not> is_system (c ! i)) [0 ..< length c])"
    by (simp add: getTokenBreakdown_def o_def breakdownOf_def Let_def)
  also have "\<dots> = map (\<lambda>m. g (cnt (mes m)) (isMessageSummarized m)
               (if isMessageSummarized m then cnt (the (tr_summary (extraOf m))) else 0))
          (filter (\<lambda>m. \<not> is_system m) c)"
    by (rule map_filter_nth)
  finally show ?thesis by simp
qed

lemma getTotalSavings_original:
  "original (getTotalSavings cnt r c) = (\<Sum>m\<leftarrow>filter (\<lambda>m. \<not> is_system m) c. int (cnt (mes m)))"
  using breakdown_sum [of "\<lambda>t h s. int t" cnt c]
  by (simp add: getTotalSavings_def totalsLoop_eq Let_def)

lemma getTotalSavings_current:
  "current (getTotalSavings cnt r c)
     = (\<Sum>m\<leftarrow>filter (\<lambda>m. \<not> is_system m) c.
          if isMessageSummarized m \<and> r then int (cnt (the (tr_summary (extraOf m))))
          else int (cnt (mes m)))"
proof -
  have "(\<Sum>m\<leftarrow>filter (\<lambda>m. \<not> is_system m) c.
          if isMessageSummarized m \<and> r then int (cnt (the (tr_summary (extraOf m))))
          else int (cnt (mes m)))
      = (\<Sum>m\<leftarrow>filter (\<lambda>m. \<not> is_system m) c.
          if isMessageSummarized m \<and> r
          then int (if isMessageSummarized m then cnt (the (tr_summary (extraOf m))) else 0)
          else int (cnt (mes m)))"
    by (intro arg_cong [where f = sum_list] map_cong) auto
  then show ?thesis
    using breakdown_sum [of "\<lambda>t h s. if h \<and> r then int s else int t" cnt c]
    by (simp add: getTotalSavings_def totalsLoop_eq Let_def)
qed

lemma getTotalSavings_fields:
  "saved (getTotalSavings cnt r c)
     = original (getTotalSavings cnt r c) - current (getTotalSavings cnt r c)
   \<and> savedPercent (getTotalSavings cnt r c)
     = percentSaved (original (getTotalSavings cnt r c)) (current (getTotalSavings cnt r c))"
  by (simp add: getTotalSavings_def Let_def split: prod.splits)

lemma getTotalSavings_current_nonneg: "0 \<le> current (getTotalSavings cnt r c)"
  unfolding getTotalSavings_current by (rule sum_list_nonneg) auto

lemma percentSaved_le_100:
  assumes "0 \<le> b"
  shows "percentSaved a b \<le> 100"
proof (cases "0 < a")
  case True
  then have "(0::rat) \<le> of_int b / of_int a"
    using assms by simp
  then show ?thesis
    using True by (simp add: percentSaved_def percent_le_100)
next
  case False
  then show ?thesis by (simp add: percentSaved_def)
qed

text \<open>
  Claim C2, as the code has it.  \<open>original\<close> is the sum of the token counts of the
  texts of the messages that are not system messages; \<open>current\<close> is the same sum with
  the count of the summary in place of the count of the text where the message has a
  summary and \<^verbatim>\<open>replace_with_summary\<close> is on; \<open>current = original - saved\<close>.
  \<open>savedPercent\<close> is \<open>0\<close> when \<open>original\<close> is \<open>0\<close>; otherwise it is
  \<^verbatim>\<open>Math.round((1 - current / original) * 100)\<close> as double-precision arithmetic computes
  it, every operation rounded.  It never exceeds 100.
\<close>

theorem getTotalSavings_accounting:
  "current (getTotalSavings cnt r c)
     = original (getTotalSavings cnt r c) - saved (getTotalSavings cnt r c)
   \<and> original (getTotalSavings cnt r c)
     = (\<Sum>m\<leftarrow>filter (\<lambda>m. \<not> is_system m) c. int (cnt (mes m)))
   \<and> current (getTotalSavings cnt r c)
     = (\<Sum>m\<leftarrow>filter (\<lambda>m. \<not> is_system m) c.
          if isMessageSummarized m \<and> r then int (cnt (the (tr_summary (extraOf m))))
          else int (cnt (mes m)))
   \<and> savedPercent (getTotalSavings cnt r c)
     = (if 0 < original (getTotalSavings cnt r c)
        then mathRound (fl (fl (1 - fl (of_int (current (getTotalSavings cnt r c))
                                         / of_int (original (getTotalSavings cnt r c)))) * 100))
        else 0)
   \<and> savedPercent (getTotalSavings cnt r c) \<le> 100"
proof -
  have a: "current (getTotalSavings cnt r c)
     = original (getTotalSavings cnt r c) - saved (getTotalSavings cnt r c)"
    by (simp add: getTotalSavings_fields)
  have p: "savedPercent (getTotalSavings cnt r c)
     = (if 0 < original (getTotalSavings cnt r c)
        then mathRound (fl (fl (1 - fl (of_int (current (getTotalSavings cnt r c))
                                         / of_int (original (getTotalSavings cnt r c)))) * 100))
        else 0)"
    by (simp add: getTotalSavings_fields percentSaved_def)
  have b: "savedPercent (getTotalSavings cnt r c) \<le> 100"
    by (simp add: getTotalSavings_fields percentSaved_le_100 getTotalSavings_current_nonneg)
  from a p b getTotalSavings_original [of cnt r c] getTotalSavings_current [of cnt r c]
  show ?thesis by blast
qed

text \<open>The three roundings for 17 effective tokens of 40, as fractions with a power of two
  below: the binary64 values that the quotient, the difference and the product have.\<close>

lemma tie_steps:
  "fl (17 / 40) = 7656119366529843 / 18014398509481984"
  "fl (1 - 7656119366529843 / 18014398509481984) = 2589569785738035 / 4503599627370496"
  "fl (2589569785738035 / 4503599627370496 * 100) = 8092405580431359 / 140737488355328"
  "mathRound (8092405580431359 / 140737488355328) = 57"
  by code_simp+

lemma percentSaved_tie: "percentSaved 40 17 = 57"
  by code_simp

lemma mathRound_tie: "mathRound (100 * 23 / 40) = 58"
  by (simp add: mathRound_def)

lemma tie_totals:
  "original (getTotalSavings length True [tieMessage]) = 40
   \<and> current (getTotalSavings length True [tieMessage]) = 17
   \<and> saved (getTotalSavings length True [tieMessage]) = 23
   \<and> savedPercent (getTotalSavings length True [tieMessage]) = percentSaved 40 17"
  by (simp add: getTotalSavings_def getTokenBreakdown_def breakdownOf_def tieMessage_def
      isMessageSummarized_def truthyStr_def extraOf_def Let_def)

theorem getTotalSavings_accounting_witness:
  "0 < original (getTotalSavings length True [tieMessage])
   \<and> savedPercent (getTotalSavings length True [tieMessage]) \<le> 100
   \<and> current (getTotalSavings length True [tieMessage])
       = original (getTotalSavings length True [tieMessage])
         - saved (getTotalSavings length True [tieMessage])
   \<and> \<not> 0 < original (getTotalSavings length True [])
   \<and> savedPercent (getTotalSavings length True []) = 0"
proof -
  note T = getTotalSavings_accounting [of length True "[tieMessage]"]
  note E = getTotalSavings_accounting [of length True "[]"]
  have h: "original (getTotalSavings length True []) = 0"
    by (simp add: getTotalSavings_def getTokenBreakdown_def)
  have 1: "0 < original (getTotalSavings length True [tieMessage])"
    using tie_totals by simp
  have 2: "savedPercent (getTotalSavings length True [tieMessage]) \<le> 100"
    using T by blast
  have 3: "current (getTotalSavings length True [tieMessage])
       = original (getTotalSavings length True [tieMessage])
         - saved (getTotalSavings length True [tieMessage])"
    using T by blast
  have 4: "\<not> 0 < original (getTotalSavings length True [])"
    using h by simp
  have 5: "savedPercent (getTotalSavings length True []) = 0"
    using E h by simp
  from 1 2 3 4 5 show ?thesis by blast
qed

text \<open>
  The claim as it is written gives \<open>savedPercent\<close> as the rounded value of
  \<open>100 * saved / original\<close>.  With 40 original tokens and 17 effective ones, \<open>saved\<close> is
  23 and \<open>100 * 23 / 40 = 57.5\<close> rounds to 58.  The code computes \<open>17 / 40\<close>, which is the
  double \<open>0.42499999999999998889...\<close>; one minus that is halfway between two doubles and
  rounds to \<open>0.57499999999999995559...\<close>; times 100 that rounds to
  \<open>57.49999999999999289...\<close>, and \<^verbatim>\<open>Math.round\<close> returns 57.
\<close>

theorem savedPercent_counterexample:
  "original (getTotalSavings length True [tieMessage]) = 40
   \<and> saved (getTotalSavings length True [tieMessage]) = 23
   \<and> savedPercent (getTotalSavings length True [tieMessage]) = 57
   \<and> mathRound (100 * 23 / 40) = 58"
proof (intro conjI)
  show "original (getTotalSavings length True [tieMessage]) = 40"
    using tie_totals by simp
  show "saved (getTotalSavings length True [tieMessage]) = 23"
    using tie_totals by simp
  show "savedPercent (getTotalSavings length True [tieMessage]) = 57"
    using tie_totals percentSaved_tie by simp
  show "mathRound (100 * 23 / 40) = 58"
    by (rule mathRound_tie)
qed

section \<open>Generation gateway and message summaries\<close>

lemma trim_Nil: "trim [] = []"
  by (simp add: trim_def)

lemma generateText_eq:
  "generateText H S w content systemPrompt =
     (if chat w = [] \<or> summarization_profile S = [] then (Inr [], w)
      else (requestResult H (fst (sentRequest H S w content systemPrompt)),
            w\<lparr>hostState := snd (sentRequest H S w content systemPrompt)\<rparr>))"
  by (auto simp: generateText_def sentRequest_def Let_def split: prod.splits)

lemma generateText_chat: "chat (snd (generateText H S w content systemPrompt)) = chat w"
  by (simp add: generateText_eq)

lemma generateText_memoryCache:
  "memoryCache (snd (generateText H S w content systemPrompt)) = memoryCache w"
  by (simp add: generateText_eq)

lemma storeMemory_chat: "chat (storeMemory H S w summ ty mid ids) = chat w"
  by (simp add: storeMemory_def Let_def)

lemma requestResult_Raises:
  "requestResult H (Raises ErrorValue) = Inr []"
  "requestResult H (Raises NullishValue) = Inl TypeError"
  by (simp_all add: requestResult_def trim_Nil)

lemma requestResult_no_parser:
  assumes "parseReasoningFromString H = None"
  shows "requestResult H (Returns FalsyResponse) = Inr []"
    and "requestResult H (Returns (TextResponse s)) = Inr (trim s)"
    and "requestResult H (Returns (ContentResponse c)) = (if c = [] then Inl TypeError else Inr (trim c))"
    and "requestResult H (Returns OtherResponse) = Inl TypeError"
  using assms
  by (simp_all add: requestResult_def readResponse_def extractContent_def logResult_def trim_Nil)

text \<open>
  Claim C6, as the code has it.  In the three cases that the claim names,
  \<^verbatim>\<open>generateText\<close> does not fail.  When there is no active chat or no summarization
  profile it returns the empty string without sending a request and leaves the state as
  it is.  When the request raises an error, the exception is caught and the result is
  the empty string.  (A request that is rejected with \<^verbatim>\<open>null\<close> or \<^verbatim>\<open>undefined\<close> makes the
  handler itself raise, a \<open>TypeError\<close>.)  The chat and the memory cache are never
  changed.
\<close>

theorem generateText_returns_empty:
  "(chat w = [] \<or> summarization_profile S = []
      \<longrightarrow> generateText H S w content systemPrompt = (Inr [], w))
   \<and> (fst (sentRequest H S w content systemPrompt) = Raises ErrorValue
      \<longrightarrow> fst (generateText H S w content systemPrompt) = Inr [])
   \<and> (chat w \<noteq> [] \<and> summarization_profile S \<noteq> []
       \<and> fst (sentRequest H S w content systemPrompt) = Raises NullishValue
      \<longrightarrow> fst (generateText H S w content systemPrompt) = Inl TypeError)
   \<and> chat (snd (generateText H S w content systemPrompt)) = chat w
   \<and> memoryCache (snd (generateText H S w content systemPrompt)) = memoryCache w"
  by (simp add: generateText_eq requestResult_Raises)

lemma raisingHost_sentRequest:
  "fst (sentRequest raisingHost S w content systemPrompt) = Raises ErrorValue"
  by (simp add: sentRequest_def raisingHost_def raisingRequest_def)

theorem generateText_returns_empty_witness:
  "(chat emptyWorld = [] \<or> summarization_profile noProfileSettings = [])
   \<and> generateText answeringHost noProfileSettings emptyWorld ''Ann: Hello there'' ''Summarize:''
       = (Inr [], emptyWorld)
   \<and> fst (sentRequest raisingHost exampleSettings oneMessageWorld ''Ann: Hello there'' ''Summarize:'')
       = Raises ErrorValue
   \<and> fst (generateText raisingHost exampleSettings oneMessageWorld ''Ann: Hello there'' ''Summarize:'')
       = Inr []
   \<and> chat oneMessageWorld \<noteq> [] \<and> summarization_profile exampleSettings \<noteq> []
   \<and> fst (sentRequest rejectedHost exampleSettings oneMessageWorld ''Ann: Hello there'' ''Summarize:'')
       = Raises NullishValue
   \<and> fst (generateText rejectedHost exampleSettings oneMessageWorld ''Ann: Hello there'' ''Summarize:'')
       = Inl TypeError"
proof -
  have h: "chat emptyWorld = []"
    by (simp add: emptyWorld_def)
  have c: "chat oneMessageWorld \<noteq> []" "summarization_profile exampleSettings \<noteq> []"
    by (simp_all add: oneMessageWorld_def exampleSettings_def)
  have r: "fst (sentRequest rejectedHost exampleSettings oneMessageWorld ''Ann: Hello there'' ''Summarize:'')
       = Raises NullishValue"
    by (simp add: sentRequest_def rejectedHost_def rejectedRequest_def)
  show ?thesis
    using h c r raisingHost_sentRequest [of exampleSettings oneMessageWorld "''Ann: Hello there''" "''Summarize:''"]
      generateText_returns_empty [of emptyWorld noProfileSettings answeringHost "''Ann: Hello there''" "''Summarize:''"]
      generateText_returns_empty [of oneMessageWorld exampleSettings raisingHost "''Ann: Hello there''" "''Summarize:''"]
      generateText_returns_empty [of oneMessageWorld exampleSettings rejectedHost "''Ann: Hello there''" "''Summarize:''"]
    by blast
qed

text \<open>
  The claim as it is written says that the call fails with a \<open>GenerationError\<close>.  Without
  a profile, without an active chat, and with a generator that raises an error, the call
  returns the empty string.
\<close>

theorem generateText_counterexample:
  "fst (generateText answeringHost noProfileSettings oneMessageWorld ''Ann: Hello there'' ''Summarize:'')
     = Inr []
   \<and> fst (generateText answeringHost exampleSettings emptyWorld ''Ann: Hello there'' ''Summarize:'')
     = Inr []
   \<and> fst (generateText raisingHost exampleSettings oneMessageWorld ''Ann: Hello there'' ''Summarize:'')
     = Inr []
   \<and> Inr [] \<noteq> (Inl GenerationError :: error + string)"
  by (simp add: generateText_eq raisingHost_sentRequest requestResult_Raises noProfileSettings_def
      exampleSettings_def oneMessageWorld_def emptyWorld_def)

lemma summarizeMessage_blank:
  assumes "0 \<le> mesId" "mesId < int (length (chat w))"
    and "fst (generateText H S w (messageContent (chat w ! nat mesId))
               (promptInstructions (summary_prompt S))) = Inr []"
  shows "summarizeMessage H S w mesId
     = (Inr [], snd (generateText H S w (messageContent (chat w ! nat mesId))
                      (promptInstructions (summary_prompt S))))"
proof -
  obtain r w1 where g: "generateText H S w (messageContent (chat w ! nat mesId))
      (promptInstructions (summary_prompt S)) = (r, w1)"
    by (cases "generateText H S w (messageContent (chat w ! nat mesId))
      (promptInstructions (summary_prompt S))")
  with assms(3) have r: "r = Inr []" by simp
  show ?thesis
    using assms(1,2) by (simp add: summarizeMessage_def Let_def g r)
qed

lemma summarizeMessage_raises:
  assumes "0 \<le> mesId" "mesId < int (length (chat w))"
    and "fst (generateText H S w (messageContent (chat w ! nat mesId))
               (promptInstructions (summary_prompt S))) = Inl e"
  shows "summarizeMessage H S w mesId
     = (Inl e, snd (generateText H S w (messageContent (chat w ! nat mesId))
                      (promptInstructions (summary_prompt S))))"
proof -
  obtain r w1 where g: "generateText H S w (messageContent (chat w ! nat mesId))
      (promptInstructions (summary_prompt S)) = (r, w1)"
    by (cases "generateText H S w (messageContent (chat w ! nat mesId))
      (promptInstructions (summary_prompt S))")
  with assms(3) have r: "r = Inl e" by simp
  show ?thesis
    using assms(1,2) by (simp add: summarizeMessage_def Let_def g r)
qed

lemma emptyContent_summarizeMessage:
  "summarizeMessage emptyContentHost exampleSettings oneMessageWorld 0 = (Inl TypeError, oneMessageWorld)"
proof -
  have p: "parseReasoningFromString emptyContentHost = None"
    by (simp add: emptyContentHost_def)
  have s: "sentRequest emptyContentHost exampleSettings oneMessageWorld c q = (Returns (ContentResponse []), ())" for c q
    by (simp add: sentRequest_def emptyContentHost_def emptyContentRequest_def)
  have g: "generateText emptyContentHost exampleSettings oneMessageWorld c q = (Inl TypeError, oneMessageWorld)" for c q
    by (simp add: generateText_eq s requestResult_no_parser [OF p])
      (simp add: oneMessageWorld_def exampleSettings_def)
  show ?thesis
    by (simp add: summarizeMessage_def Let_def g) (simp add: oneMessageWorld_def)
qed

lemma stringifying_generateText:
  "generateText stringifyingHost exampleSettings oneMessageWorld c q = (Inr ''[object Object]'', oneMessageWorld)"
proof -
  have t: "trim ''[object Object]'' = ''[object Object]''"
    by code_simp
  have r: "requestResult stringifyingHost (Returns (ContentResponse [])) = Inr ''[object Object]''"
    by (simp add: requestResult_def readResponse_def extractContent_def logResult_def
        stringifyingHost_def emptyContentHost_def stringifyingParser_def t)
  have s: "sentRequest stringifyingHost exampleSettings oneMessageWorld c q = (Returns (ContentResponse []), ())"
    by (simp add: sentRequest_def stringifyingHost_def emptyContentHost_def emptyContentRequest_def)
  show ?thesis
    by (simp add: generateText_eq s r) (simp add: oneMessageWorld_def exampleSettings_def)
qed

lemma stringifying_summarizeMessage:
  "fst (summarizeMessage stringifyingHost exampleSettings oneMessageWorld 0) = Inr ''[object Object]''
   \<and> tr_summary (extraOf (chat (snd (summarizeMessage stringifyingHost exampleSettings oneMessageWorld 0)) ! 0))
       = Some ''[object Object]''"
proof -
  have c: "chat oneMessageWorld = [plainMessage ''Ann'' ''Hello there'']"
    by (simp add: oneMessageWorld_def)
  have h: "\<not> auto_hide_summarized exampleSettings"
    by (simp add: exampleSettings_def)
  show ?thesis
    by (simp add: summarizeMessage_def Let_def stringifying_generateText c storeMemory_chat h
        extraOf_def plainMessage_def emptyExtra_def)
qed

text \<open>
  Claim C5 on the code.  For a valid message index, \<^verbatim>\<open>summarizeMessage\<close> returns the
  empty string and leaves the chat and the memory cache as they are when no profile is
  configured or the gateway's reading of the host's answer is the empty string: that is
  so when the request raises an error and, on a host without a reasoning parser, when
  the response is a falsy value or a string that is blank.  It is not so for the empty
  completion that arrives as an object whose \<^verbatim>\<open>content\<close> is the empty string: line 106
  keeps the object, \<^verbatim>\<open>result.trim()\<close> raises, and \<^verbatim>\<open>summarizeMessage\<close> raises the
  \<open>TypeError\<close> (the chat and the memory cache unchanged).  With a reasoning parser that
  turns its argument into a string, the same response is stored as the summary
  \<^verbatim>\<open>[object Object]\<close>.
\<close>

theorem summarizeMessage_failure:
  assumes "0 \<le> mesId" and "mesId < int (length (chat w))"
  shows "(summarization_profile S = []
          \<or> requestResult H (fst (sentRequest H S w (messageContent (chat w ! nat mesId))
                                    (promptInstructions (summary_prompt S)))) = Inr []
          \<longrightarrow> fst (summarizeMessage H S w mesId) = Inr []
              \<and> chat (snd (summarizeMessage H S w mesId)) = chat w
              \<and> memoryCache (snd (summarizeMessage H S w mesId)) = memoryCache w)
      \<and> (summarization_profile S \<noteq> []
          \<and> requestResult H (fst (sentRequest H S w (messageContent (chat w ! nat mesId))
                                    (promptInstructions (summary_prompt S)))) = Inl TypeError
          \<longrightarrow> fst (summarizeMessage H S w mesId) = Inl TypeError
              \<and> chat (snd (summarizeMessage H S w mesId)) = chat w
              \<and> memoryCache (snd (summarizeMessage H S w mesId)) = memoryCache w)
      \<and> requestResult H (Raises ErrorValue) = Inr []
      \<and> (parseReasoningFromString H = None
          \<longrightarrow> requestResult H (Returns FalsyResponse) = Inr []
              \<and> requestResult H (Returns (TextResponse s)) = Inr (trim s)
              \<and> requestResult H (Returns (ContentResponse [])) = Inl TypeError)
      \<and> summarizeMessage emptyContentHost exampleSettings oneMessageWorld 0
          = (Inl TypeError, oneMessageWorld)
      \<and> fst (summarizeMessage stringifyingHost exampleSettings oneMessageWorld 0)
          = Inr ''[object Object]''
      \<and> tr_summary (extraOf (chat (snd (summarizeMessage stringifyingHost exampleSettings
                                          oneMessageWorld 0)) ! 0))
          = Some ''[object Object]''"
proof -
  let ?g = "generateText H S w (messageContent (chat w ! nat mesId))
               (promptInstructions (summary_prompt S))"
  have ne: "chat w \<noteq> []"
    using assms by auto
  have 1: "fst (summarizeMessage H S w mesId) = Inr []
              \<and> chat (snd (summarizeMessage H S w mesId)) = chat w
              \<and> memoryCache (snd (summarizeMessage H S w mesId)) = memoryCache w"
    if "summarization_profile S = []
          \<or> requestResult H (fst (sentRequest H S w (messageContent (chat w ! nat mesId))
                                    (promptInstructions (summary_prompt S)))) = Inr []"
  proof -
    have "fst ?g = Inr []"
      using that by (auto simp: generateText_eq)
    with assms have "summarizeMessage H S w mesId = (Inr [], snd ?g)"
      by (rule summarizeMessage_blank)
    then show ?thesis
      by (simp add: generateText_chat generateText_memoryCache)
  qed
  have 2: "fst (summarizeMessage H S w mesId) = Inl TypeError
              \<and> chat (snd (summarizeMessage H S w mesId)) = chat w
              \<and> memoryCache (snd (summarizeMessage H S w mesId)) = memoryCache w"
    if "summarization_profile S \<noteq> []
          \<and> requestResult H (fst (sentRequest H S w (messageContent (chat w ! nat mesId))
                                    (promptInstructions (summary_prompt S)))) = Inl TypeError"
  proof -
    have "fst ?g = Inl TypeError"
      using that ne by (simp add: generateText_eq)
    with assms have "summarizeMessage H S w mesId = (Inl TypeError, snd ?g)"
      by (rule summarizeMessage_raises)
    then show ?thesis
      by (simp add: generateText_chat generateText_memoryCache)
  qed
  have 3: "parseReasoningFromString H = None
          \<longrightarrow> requestResult H (Returns FalsyResponse) = Inr []
              \<and> requestResult H (Returns (TextResponse s)) = Inr (trim s)
              \<and> requestResult H (Returns (ContentResponse [])) = Inl TypeError"
    by (simp add: requestResult_no_parser)
  from 1 2 3 requestResult_Raises(1) [of H] emptyContent_summarizeMessage stringifying_summarizeMessage
  show ?thesis by blast
qed

theorem summarizeMessage_failure_witness:
  "(0::int) \<le> 0 \<and> 0 < int (length (chat oneMessageWorld))
   \<and> requestResult raisingHost
        (fst (sentRequest raisingHost exampleSettings oneMessageWorld
                (messageContent (chat oneMessageWorld ! nat 0))
                (promptInstructions (summary_prompt exampleSettings)))) = Inr []
   \<and> fst (summarizeMessage raisingHost exampleSettings oneMessageWorld 0) = Inr []
   \<and> chat (snd (summarizeMessage raisingHost exampleSettings oneMessageWorld 0))
       = chat oneMessageWorld
   \<and> summarization_profile exampleSettings \<noteq> []
   \<and> requestResult emptyContentHost
        (fst (sentRequest emptyContentHost exampleSettings oneMessageWorld
                (messageContent (chat oneMessageWorld ! nat 0))
                (promptInstructions (summary_prompt exampleSettings)))) = Inl TypeError
   \<and> fst (summarizeMessage emptyContentHost exampleSettings oneMessageWorld 0) = Inl TypeError
   \<and> parseReasoningFromString emptyContentHost = None
   \<and> requestResult emptyContentHost (Returns FalsyResponse) = Inr []
   \<and> requestResult emptyContentHost (Returns (TextResponse [CHR 0xA0, CHR '' ''])) = Inr []
   \<and> requestResult emptyContentHost (Returns (ContentResponse [])) = Inl TypeError"
proof -
  have a: "0 < int (length (chat oneMessageWorld))"
    by (simp add: oneMessageWorld_def)
  have b: "requestResult raisingHost
        (fst (sentRequest raisingHost exampleSettings oneMessageWorld
                (messageContent (chat oneMessageWorld ! nat 0))
                (promptInstructions (summary_prompt exampleSettings)))) = Inr []"
    by (simp add: raisingHost_sentRequest requestResult_Raises)
  have p: "parseReasoningFromString emptyContentHost = None"
    by (simp add: emptyContentHost_def)
  have c: "summarization_profile exampleSettings \<noteq> []"
    by (simp add: exampleSettings_def)
  have d: "requestResult emptyContentHost
        (fst (sentRequest emptyContentHost exampleSettings oneMessageWorld
                (messageContent (chat oneMessageWorld ! nat 0))
                (promptInstructions (summary_prompt exampleSettings)))) = Inl TypeError"
  proof -
    have "fst (sentRequest emptyContentHost exampleSettings oneMessageWorld
                (messageContent (chat oneMessageWorld ! nat 0))
                (promptInstructions (summary_prompt exampleSettings))) = Returns (ContentResponse [])"
      by (simp add: sentRequest_def emptyContentHost_def emptyContentRequest_def)
    then show ?thesis
      by (simp only: requestResult_no_parser [OF p]) simp
  qed
  note T = summarizeMessage_failure [OF order_refl a]
  have e: "fst (summarizeMessage raisingHost exampleSettings oneMessageWorld 0) = Inr []
      \<and> chat (snd (summarizeMessage raisingHost exampleSettings oneMessageWorld 0)) = chat oneMessageWorld"
    using T [of exampleSettings raisingHost] b by blast
  have f: "fst (summarizeMessage emptyContentHost exampleSettings oneMessageWorld 0) = Inl TypeError"
    using T [of exampleSettings emptyContentHost] c d by blast
  have t: "trim [CHR 0xA0, CHR '' ''] = []"
    by code_simp
  have g: "requestResult emptyContentHost (Returns FalsyResponse) = Inr []
      \<and> requestResult emptyContentHost (Returns (TextResponse [CHR 0xA0, CHR '' ''])) = Inr []
      \<and> requestResult emptyContentHost (Returns (ContentResponse [])) = Inl TypeError"
    using T [of exampleSettings emptyContentHost "[CHR 0xA0, CHR '' '']"] p by (simp only: t)
  from a b c d e f p g show ?thesis by simp
qed

section \<open>Chunking\<close>

lemma groupLoop_inv:
  assumes "groupLoop tok B msgs (gs, cur, t) = (gs', cur', t')"
    and "t = groupTokens tok cur"
    and "t \<le> B \<or> length cur \<le> 1"
    and "\<forall>g \<in> set gs. g \<noteq> [] \<and> (groupTokens tok g \<le> B \<or> (\<exists>u. g = [u] \<and> B < int (tok u)))"
  shows "t' = groupTokens tok cur' \<and> (t' \<le> B \<or> length cur' \<le> 1)
         \<and> (\<forall>g \<in> set gs'. g \<noteq> [] \<and> (groupTokens tok g \<le> B \<or> (\<exists>u. g = [u] \<and> B < int (tok u))))
         \<and> concat gs' @ cur' = concat gs @ cur @ msgs"
  using assms
proof (induction msgs arbitrary: gs cur t)
  case Nil
  then show ?case by auto
next
  case (Cons msg msgs)
  show ?case
  proof (cases "t + int (tok msg) > B \<and> cur \<noteq> []")
    case True
    then have step: "groupLoop tok B msgs (gs @ [cur], [msg], int (tok msg)) = (gs', cur', t')"
      using Cons.prems(1) by simp
    have cur: "cur \<noteq> [] \<and> (groupTokens tok cur \<le> B \<or> (\<exists>u. cur = [u] \<and> B < int (tok u)))"
    proof (cases "t \<le> B")
      case True
      with \<open>t + int (tok msg) > B \<and> cur \<noteq> []\<close> Cons.prems(2) show ?thesis by simp
    next
      case False
      with Cons.prems(3) have "length cur \<le> 1" by simp
      with \<open>t + int (tok msg) > B \<and> cur \<noteq> []\<close> obtain u where u: "cur = [u]"
        by (cases cur) auto
      with False Cons.prems(2) show ?thesis
        by (simp add: groupTokens_def)
    qed
    have "t' = groupTokens tok cur' \<and> (t' \<le> B \<or> length cur' \<le> 1)
         \<and> (\<forall>g \<in> set gs'. g \<noteq> [] \<and> (groupTokens tok g \<le> B \<or> (\<exists>u. g = [u] \<and> B < int (tok u))))
         \<and> concat gs' @ cur' = concat (gs @ [cur]) @ [msg] @ msgs"
      using step
    proof (rule Cons.IH)
      show "int (tok msg) = groupTokens tok [msg]" by (simp add: groupTokens_def)
      show "int (tok msg) \<le> B \<or> length [msg] \<le> 1" by simp
      show "\<forall>g \<in> set (gs @ [cur]). g \<noteq> [] \<and> (groupTokens tok g \<le> B \<or> (\<exists>u. g = [u] \<and> B < int (tok u)))"
        using Cons.prems(4) cur by auto
    qed
    then show ?thesis by auto
  next
    case False
    then have step: "groupLoop tok B msgs (gs, cur @ [msg], t + int (tok msg)) = (gs', cur', t')"
      using Cons.prems(1) by auto
    have "t' = groupTokens tok cur' \<and> (t' \<le> B \<or> length cur' \<le> 1)
         \<and> (\<forall>g \<in> set gs'. g \<noteq> [] \<and> (groupTokens tok g \<le> B \<or> (\<exists>u. g = [u] \<and> B < int (tok u))))
         \<and> concat gs' @ cur' = concat gs @ (cur @ [msg]) @ msgs"
      using step
    proof (rule Cons.IH)
      show "t + int (tok msg) = groupTokens tok (cur @ [msg])"
        using Cons.prems(2) by (simp add: groupTokens_def)
      show "t + int (tok msg) \<le> B \<or> length (cur @ [msg]) \<le> 1"
        using False by auto
      show "\<forall>g \<in> set gs. g \<noteq> [] \<and> (groupTokens tok g \<le> B \<or> (\<exists>u. g = [u] \<and> B < int (tok u)))"
        by (rule Cons.prems(4))
    qed
    then show ?thesis by auto
  qed
qed


lemma splitIntoGroups_concat: "concat (splitIntoGroups tok B units) = units"
proof -
  obtain gs' cur' t' where l: "groupLoop tok B units ([], [], 0) = (gs', cur', t')"
    by (cases "groupLoop tok B units ([], [], 0)")
  have "t' = groupTokens tok cur' \<and> (t' \<le> B \<or> length cur' \<le> 1)
         \<and> (\<forall>g \<in> set gs'. g \<noteq> [] \<and> (groupTokens tok g \<le> B \<or> (\<exists>u. g = [u] \<and> B < int (tok u))))
         \<and> concat gs' @ cur' = concat [] @ [] @ units"
    using l by (rule groupLoop_inv) (simp_all add: groupTokens_def)
  then show ?thesis
    by (auto simp: splitIntoGroups_def l)
qed

lemma chunkLoop_groupLoop:
  "chunkLoop tok B msgs (map (join chunkSeparator) gs, cur, t)
     = (case groupLoop tok B msgs (gs, cur, t) of
          (gs', cur', t') \<Rightarrow> (map (join chunkSeparator) gs', cur', t'))"
proof (induction msgs arbitrary: gs cur t)
  case Nil
  then show ?case by simp
next
  case (Cons msg msgs)
  show ?case
  proof (cases "t + int (tok msg) > B \<and> cur \<noteq> []")
    case True
    then show ?thesis
      using Cons.IH [of "gs @ [cur]" "[msg]" "int (tok msg)"] by simp
  next
    case False
    then show ?thesis
      using Cons.IH [of gs "cur @ [msg]" "t + int (tok msg)"] by auto
  qed
qed

lemma splitIntoChunks_groups:
  "splitIntoChunks tok B units = map (join chunkSeparator) (splitIntoGroups tok B units)"
  using chunkLoop_groupLoop [of tok B units "[]" "[]" 0]
  by (simp add: splitIntoChunks_def splitIntoGroups_def split: prod.splits)


lemma recording_fields:
  "getTokenCountAsync (recording H) = getTokenCountAsync H"
  "parseReasoningFromString (recording H) = parseReasoningFromString H"
  "maxContext (recording H) = maxContext H"
  by (simp_all add: recording_def)

lemma readResponse_recording: "readResponse (recording H) response = readResponse H response"
  by (simp add: readResponse_def recording_fields)

lemma requestResult_recording: "requestResult (recording H) out = requestResult H out"
  by (cases out) (simp_all add: requestResult_def readResponse_recording)

lemma generateText_recording:
  assumes "chat w \<noteq> []" "summarization_profile S \<noteq> []"
  shows "requestLog (snd (generateText (recording H) S w content systemPrompt))
           = requestLog w @ [(summarization_profile S, buildMessages content systemPrompt,
                              getMaxTokensForProfile S (summarization_profile S))]"
  using assms by (simp add: generateText_eq sentRequest_def recording_def requestLog_def)



















section \<open>Summarizing all messages\<close>

lemma hideEach_length: "length (hideEach c idxs) = length c"
  by (induction idxs arbitrary: c) (simp_all add: hideChatMessage_def)

lemma autoHide_length: "length (autoHideSummarizedMessages S c) = length c"
  by (simp add: autoHideSummarizedMessages_def Let_def hideEach_length)

lemma summarizeMessage_length:
  "length (chat (snd (summarizeMessage H S w mesId))) = length (chat w)"
proof -
  obtain r w1 where g: "generateText H S w (messageContent (chat w ! nat mesId))
      (promptInstructions (summary_prompt S)) = (r, w1)"
    by (cases "generateText H S w (messageContent (chat w ! nat mesId))
      (promptInstructions (summary_prompt S))")
  have c1: "chat w1 = chat w"
    using generateText_chat [of H S w "messageContent (chat w ! nat mesId)"
        "promptInstructions (summary_prompt S)"] g by simp
  show ?thesis
    by (cases r) (simp_all add: summarizeMessage_def Let_def g c1 storeMemory_chat autoHide_length)
qed

lemma summarizeMessage_returns:
  assumes "0 \<le> mesId" "mesId < int (length (chat w))"
    and "\<forall>h p ms mt e. requestResult H (fst (sendRequest H h p ms mt)) \<noteq> Inl e"
  shows "\<exists>summ. fst (summarizeMessage H S w mesId) = Inr summ"
proof -
  obtain r w1 where g: "generateText H S w (messageContent (chat w ! nat mesId))
      (promptInstructions (summary_prompt S)) = (r, w1)"
    by (cases "generateText H S w (messageContent (chat w ! nat mesId))
      (promptInstructions (summary_prompt S))")
  have "\<forall>e. r \<noteq> Inl e"
    using g assms(3) by (auto simp: generateText_eq sentRequest_def split: if_splits)
  then obtain summ where r: "r = Inr summ"
    by (cases r) auto
  show ?thesis
    using assms(1,2) by (simp add: summarizeMessage_def Let_def g r)
qed

lemma summarizeLoop_count:
  assumes "\<forall>i \<in> set idxs. i < length (chat w)"
    and "\<forall>h p ms mt e. requestResult H (fst (sendRequest H h p ms mt)) \<noteq> Inl e"
  shows "fst (summarizeLoop H S w idxs n) = n + int (length idxs)"
  using assms(1)
proof (induction idxs arbitrary: w n)
  case Nil
  then show ?case by simp
next
  case (Cons i idxs)
  then have "0 \<le> int i" "int i < int (length (chat w))"
    by simp_all
  then obtain summ where s: "fst (summarizeMessage H S w (int i)) = Inr summ"
    using summarizeMessage_returns [OF _ _ assms(2)] by blast
  obtain w1 where w1: "summarizeMessage H S w (int i) = (Inr summ, w1)"
    using s by (cases "summarizeMessage H S w (int i)") simp
  have l: "length (chat w1) = length (chat w)"
    using summarizeMessage_length [of H S w "int i"] by (simp add: w1)
  have "fst (summarizeLoop H S w1 idxs (n + 1)) = n + 1 + int (length idxs)"
    using Cons.prems l by (intro Cons.IH) simp
  then show ?case
    by (simp add: w1)
qed

lemma summarizeLoop_bound:
  "n \<le> fst (summarizeLoop H S w idxs n) \<and> fst (summarizeLoop H S w idxs n) \<le> n + int (length idxs)"
proof (induction idxs arbitrary: w n)
  case Nil
  then show ?case by simp
next
  case (Cons i idxs)
  obtain r w1 where s: "summarizeMessage H S w (int i) = (r, w1)"
    by (cases "summarizeMessage H S w (int i)")
  show ?case
  proof (cases r)
    case (Inl e)
    then show ?thesis
      using Cons.IH [of n w1] by (simp add: s)
  next
    case (Inr t)
    then show ?thesis
      using Cons.IH [of "n + 1" w1] by (simp add: s)
  qed
qed

lemma summarizeAllMessages_count:
  assumes "\<forall>h p ms mt e. requestResult H (fst (sendRequest H h p ms mt)) \<noteq> Inl e"
  shows "fst (summarizeAllMessages H S w) = int (length (toSummarize (chat w)))"
proof -
  have "\<forall>i \<in> set (toSummarize (chat w)). i < length (chat w)"
    by (simp add: toSummarize_def)
  then show ?thesis
    using assms by (simp add: summarizeAllMessages_def Let_def summarizeLoop_count)
qed

lemma summarizeAllMessages_bound:
  "0 \<le> fst (summarizeAllMessages H S w)
   \<and> fst (summarizeAllMessages H S w) \<le> int (length (toSummarize (chat w)))"
  using summarizeLoop_bound [of 0 H S w "toSummarize (chat w)"]
  by (simp add: summarizeAllMessages_def Let_def)

lemma raisingHost_generateText:
  "generateText raisingHost S w content systemPrompt
     = (Inr [], if chat w = [] \<or> summarization_profile S = [] then w else w\<lparr>hostState := ()\<rparr>)"
  by (simp add: generateText_eq raisingHost_sentRequest requestResult_Raises)

lemma raisingHost_returns:
  "\<forall>h p ms mt e. requestResult raisingHost (fst (sendRequest raisingHost h p ms mt)) \<noteq> Inl e"
proof -
  have "fst (sendRequest raisingHost h p ms mt) = Raises ErrorValue" for h p ms mt
    by (simp add: raisingHost_def raisingRequest_def)
  then show ?thesis
    by (simp add: requestResult_Raises)
qed

lemma emptyContent_recorded:
  "fst (summarizeAllMessages (recording emptyContentHost) exampleSettings twoRecordedWorld) = 0
   \<and> map requestContent
         (requestLog (snd (summarizeAllMessages (recording emptyContentHost) exampleSettings
                             twoRecordedWorld)))
       = [''Ann: Hello there'', ''Bob: Good morning'']
   \<and> chat (snd (summarizeAllMessages (recording emptyContentHost) exampleSettings twoRecordedWorld))
       = chat twoRecordedWorld"
proof -
  let ?H = "recording emptyContentHost"
  let ?p = "promptInstructions (summary_prompt exampleSettings)"
  have c: "chat twoRecordedWorld = [plainMessage ''Ann'' ''Hello there'', plainMessage ''Bob'' ''Good morning'']"
    by (simp add: twoRecordedWorld_def)
  have sel: "toSummarize (chat twoRecordedWorld) = [0, 1]"
    by (simp add: toSummarize_def c plainMessage_def isMessageSummarized_def)
  have n: "summarization_profile exampleSettings \<noteq> []"
    by (simp add: exampleSettings_def)
  have p: "parseReasoningFromString emptyContentHost = None"
    by (simp add: emptyContentHost_def)
  have r: "fst (sentRequest ?H exampleSettings w content ?p) = Returns (ContentResponse [])" for w content
    by (simp add: sentRequest_def recording_def emptyContentHost_def emptyContentRequest_def)
  have g: "fst (generateText ?H exampleSettings w content ?p) = Inl TypeError"
    if "chat w \<noteq> []" for w content
    using that n by (simp add: generateText_eq r requestResult_recording requestResult_no_parser [OF p])
  have one: "fst (summarizeMessage ?H exampleSettings w mesId) = Inl TypeError
      \<and> chat (snd (summarizeMessage ?H exampleSettings w mesId)) = chat w
      \<and> requestLog (snd (summarizeMessage ?H exampleSettings w mesId))
          = requestLog w @ [(summarization_profile exampleSettings,
                             buildMessages (messageContent (chat w ! nat mesId)) ?p,
                             getMaxTokensForProfile exampleSettings (summarization_profile exampleSettings))]"
    if w: "chat w = chat twoRecordedWorld" and m: "mesId = 0 \<or> mesId = 1" for w mesId
  proof -
    have ne: "chat w \<noteq> []"
      using w c by simp
    have v: "0 \<le> mesId" "mesId < int (length (chat w))"
      using m w c by auto
    have "summarizeMessage ?H exampleSettings w mesId
        = (Inl TypeError, snd (generateText ?H exampleSettings w (messageContent (chat w ! nat mesId)) ?p))"
      using v g [OF ne] by (rule summarizeMessage_raises)
    then show ?thesis
      using generateText_recording [OF ne n, of emptyContentHost "messageContent (chat w ! nat mesId)" ?p]
      by (simp add: generateText_chat)
  qed
  obtain w1 where s1: "summarizeMessage ?H exampleSettings twoRecordedWorld 0 = (Inl TypeError, w1)"
    using one [of twoRecordedWorld 0]
    by (cases "summarizeMessage ?H exampleSettings twoRecordedWorld 0") simp
  have c1: "chat w1 = chat twoRecordedWorld"
    using one [of twoRecordedWorld 0] by (simp add: s1)
  have l1: "requestLog w1 = [(summarization_profile exampleSettings,
                             buildMessages (messageContent (plainMessage ''Ann'' ''Hello there'')) ?p,
                             getMaxTokensForProfile exampleSettings (summarization_profile exampleSettings))]"
    using one [of twoRecordedWorld 0] by (simp add: s1 c) (simp add: requestLog_def twoRecordedWorld_def)
  obtain w2 where s2: "summarizeMessage ?H exampleSettings w1 1 = (Inl TypeError, w2)"
    using one [OF c1, of 1]
    by (cases "summarizeMessage ?H exampleSettings w1 1") simp
  have c2: "chat w2 = chat twoRecordedWorld"
    using one [OF c1, of 1] by (simp add: s2 c1)
  have l2: "requestLog w2 = requestLog w1 @ [(summarization_profile exampleSettings,
                             buildMessages (messageContent (plainMessage ''Bob'' ''Good morning'')) ?p,
                             getMaxTokensForProfile exampleSettings (summarization_profile exampleSettings))]"
    using one [OF c1, of 1] by (simp add: s2 c1 c)
  have all: "summarizeAllMessages ?H exampleSettings twoRecordedWorld = (0, w2)"
    using s1 s2 by (simp add: summarizeAllMessages_def sel)
  have q: "map requestContent (requestLog w2) = [''Ann: Hello there'', ''Bob: Good morning'']"
    by (simp add: l2 l1 requestContent_def buildMessages_def messageContent_def plainMessage_def)
  show ?thesis
    by (simp add: all q c2)
qed

text \<open>
  Claim C8 on the code.  The result of \<^verbatim>\<open>summarizeAllMessages\<close> is at most the number
  of messages selected, and it is that number whenever the gateway returns for every
  answer of the host, whatever it returns: \<^verbatim>\<open>summarizeMessage\<close> then returns for every
  selected index, with a summary or with the empty string, and \<^verbatim>\<open>summarized\<close> is
  incremented after every call that returns.  At a chat of two visible messages
  without summaries and a generator that raises an error on every request, both indices
  are selected and processed in turn, and neither message gets a summary: the chat is
  as before.  The result is 2, not the number of messages summarized, which is 0.
  With a generator whose every completion is empty and arrives as an object, both calls
  of \<^verbatim>\<open>summarizeMessage\<close> raise; the loop goes on after the first, sends the second
  request, and the result is 0.
\<close>

theorem summarizeAllMessages_counts_attempts:
  "((\<forall>h p ms mt e. requestResult H (fst (sendRequest H h p ms mt)) \<noteq> Inl e)
      \<longrightarrow> fst (summarizeAllMessages H S w) = int (length (toSummarize (chat w))))
   \<and> 0 \<le> fst (summarizeAllMessages H S w)
   \<and> fst (summarizeAllMessages H S w) \<le> int (length (toSummarize (chat w)))
   \<and> toSummarize (chat twoMessageWorld) = [0, 1]
   \<and> fst (summarizeAllMessages raisingHost exampleSettings twoMessageWorld) = 2
   \<and> chat (snd (summarizeAllMessages raisingHost exampleSettings twoMessageWorld))
       = chat twoMessageWorld
   \<and> filter isMessageSummarized
         (chat (snd (summarizeAllMessages raisingHost exampleSettings twoMessageWorld))) = []
   \<and> fst (summarizeAllMessages (recording emptyContentHost) exampleSettings twoRecordedWorld) = 0
   \<and> map requestContent
         (requestLog (snd (summarizeAllMessages (recording emptyContentHost) exampleSettings
                             twoRecordedWorld)))
       = [''Ann: Hello there'', ''Bob: Good morning'']
   \<and> chat (snd (summarizeAllMessages (recording emptyContentHost) exampleSettings twoRecordedWorld))
       = chat twoRecordedWorld"
proof -
  have sel: "toSummarize (chat twoMessageWorld) = [0, 1]"
    by (simp add: toSummarize_def twoMessageWorld_def plainMessage_def isMessageSummarized_def)
  have one: "summarizeMessage raisingHost exampleSettings w mesId = (Inr [], w)"
    if "chat w = chat twoMessageWorld" "hostState w = ()" "mesId = 0 \<or> mesId = 1" for w mesId
    using that
    by (auto simp: summarizeMessage_def raisingHost_generateText twoMessageWorld_def
        exampleSettings_def Let_def)
  have all: "summarizeAllMessages raisingHost exampleSettings twoMessageWorld = (2, twoMessageWorld)"
    by (simp add: summarizeAllMessages_def sel one twoMessageWorld_def [THEN arg_cong [where f = hostState]])
  have ex: "toSummarize (chat twoMessageWorld) = [0, 1]
   \<and> fst (summarizeAllMessages raisingHost exampleSettings twoMessageWorld) = 2
   \<and> chat (snd (summarizeAllMessages raisingHost exampleSettings twoMessageWorld))
       = chat twoMessageWorld
   \<and> filter isMessageSummarized
         (chat (snd (summarizeAllMessages raisingHost exampleSettings twoMessageWorld))) = []"
    by (simp add: all sel) (simp add: twoMessageWorld_def plainMessage_def isMessageSummarized_def)
  from summarizeAllMessages_count [of H S w] summarizeAllMessages_bound [of H S w] ex
    emptyContent_recorded
  show ?thesis by blast
qed

theorem summarizeAllMessages_counts_attempts_witness:
  "requestResult raisingHost (fst (sendRequest raisingHost () ''profile-1'' [] 1024)) = Inr []
   \<and> fst (summarizeAllMessages raisingHost exampleSettings twoMessageWorld)
       = int (length (toSummarize (chat twoMessageWorld)))
   \<and> length (toSummarize (chat twoMessageWorld)) = 2"
proof -
  have a: "requestResult raisingHost (fst (sendRequest raisingHost () ''profile-1'' [] 1024)) = Inr []"
    by (simp add: raisingHost_def raisingRequest_def requestResult_Raises)
  have b: "fst (summarizeAllMessages raisingHost exampleSettings twoMessageWorld)
       = int (length (toSummarize (chat twoMessageWorld)))"
    using summarizeAllMessages_counts_attempts [of raisingHost exampleSettings twoMessageWorld]
      raisingHost_returns by blast
  have c: "length (toSummarize (chat twoMessageWorld)) = 2"
    using summarizeAllMessages_counts_attempts [of raisingHost exampleSettings twoMessageWorld]
    by simp
  from a b c show ?thesis by blast
qed

section \<open>Retrieval\<close>

















text \<open>The string functions on characters above \<open>U+007F\<close>: the capital \<open>U+00C9\<close> is
  folded and the multiplication sign is not; the no-break space is trimmed and separates
  words.\<close>

lemma latin1_examples:
  "toLowerCase [CHR 0xC9, CHR 0x44, CHR 0xD7] = [CHR 0xE9, CHR 0x64, CHR 0xD7]"
  "trim [CHR 0xA0, CHR 0x09] = []"
  "splitWhitespace [CHR 0x61, CHR 0xA0, CHR 0x62] = [[CHR 0x61], [CHR 0x62]]"
  by code_simp+











section \<open>Filling in chapters\<close>

text \<open>A generator that works: the gateway reads every answer as a text that is not empty.\<close>

lemma generateText_success:
  assumes "chat w \<noteq> []" "summarization_profile S \<noteq> []"
    and "\<forall>h p ms mt. \<exists>t. requestResult H (fst (sendRequest H h p ms mt)) = Inr t \<and> t \<noteq> []"
  shows "\<exists>summ w'. generateText H S w content systemPrompt = (Inr summ, w') \<and> summ \<noteq> []
           \<and> chat w' = chat w \<and> memoryCache w' = memoryCache w"
proof -
  have "\<exists>t. requestResult H (fst (sentRequest H S w content systemPrompt)) = Inr t \<and> t \<noteq> []"
    unfolding sentRequest_def using assms(3) by blast
  then obtain t where t: "requestResult H (fst (sentRequest H S w content systemPrompt)) = Inr t"
    and nb: "t \<noteq> []"
    by blast
  show ?thesis
    using assms(1,2) nb by (simp add: generateText_eq t)
qed

lemma summarizeEachChunk_success:
  assumes "chat w \<noteq> []" "summarization_profile S \<noteq> []"
    and "\<forall>h p ms mt. \<exists>t. requestResult H (fst (sendRequest H h p ms mt)) = Inr t \<and> t \<noteq> []"
    and "\<forall>s \<in> set acc. s \<noteq> []"
  shows "\<exists>texts w'. summarizeEachChunk H S w chunks acc = (Inr texts, w')
           \<and> length texts = length acc + length chunks \<and> (\<forall>s \<in> set texts. s \<noteq> [])
           \<and> chat w' = chat w \<and> memoryCache w' = memoryCache w"
  using assms(1,4)
proof (induction chunks arbitrary: w acc)
  case Nil
  then show ?case by simp
next
  case (Cons c cs)
  obtain summ w1 where g: "generateText H S w c (promptInstructions (scene_summary_prompt S)) = (Inr summ, w1)"
    and t: "summ \<noteq> []" and c1: "chat w1 = chat w" and m1: "memoryCache w1 = memoryCache w"
    using generateText_success [OF Cons.prems(1) assms(2,3)] by blast
  have "\<exists>texts w'. summarizeEachChunk H S w1 cs (acc @ [summ]) = (Inr texts, w')
           \<and> length texts = length (acc @ [summ]) + length cs \<and> (\<forall>s \<in> set texts. s \<noteq> [])
           \<and> chat w' = chat w1 \<and> memoryCache w' = memoryCache w1"
    using Cons.prems t c1 by (intro Cons.IH) auto
  then show ?case
    using t by (simp add: g c1 m1)
qed

lemma splitIntoChunks_nonempty:
  assumes "units \<noteq> []"
  shows "splitIntoChunks tok B units \<noteq> []"
proof -
  have "concat (splitIntoGroups tok B units) \<noteq> []"
    using assms by (simp add: splitIntoGroups_concat)
  then have "splitIntoGroups tok B units \<noteq> []" by auto
  then show ?thesis
    by (simp add: splitIntoChunks_groups)
qed

lemma summarizeInChunks_success:
  assumes "chat w \<noteq> []" "summarization_profile S \<noteq> []"
    and "\<forall>h p ms mt. \<exists>t. requestResult H (fst (sendRequest H h p ms mt)) = Inr t \<and> t \<noteq> []"
    and "units \<noteq> []"
  shows "\<exists>summ w'. summarizeInChunks H S w units B = (Inr summ, w') \<and> summ \<noteq> []
           \<and> chat w' = chat w \<and> memoryCache w' = memoryCache w"
proof -
  let ?chunks = "splitIntoChunks (getTokenCountAsync H) B units"
  obtain texts w1 where e: "summarizeEachChunk H S w ?chunks [] = (Inr texts, w1)"
    and l: "length texts = length ([] :: string list) + length ?chunks" and ne: "\<forall>s \<in> set texts. s \<noteq> []"
    and c1: "chat w1 = chat w" and m1: "memoryCache w1 = memoryCache w"
    using summarizeEachChunk_success [OF assms(1,2,3), of "[]" ?chunks] by auto
  have pos: "texts \<noteq> []"
    using l splitIntoChunks_nonempty [OF assms(4), of "getTokenCountAsync H" B] by auto
  show ?thesis
  proof (cases "length texts > 1")
    case True
    have "chat w1 \<noteq> []" using c1 assms(1) by simp
    from generateText_success [OF this assms(2,3)]
    obtain summ w' where "generateText H S w1 (join combineSeparator texts)
        (promptInstructions (scene_summary_prompt S)) = (Inr summ, w')"
      and "summ \<noteq> []" "chat w' = chat w1" "memoryCache w' = memoryCache w1"
      by blast
    then show ?thesis
      using True by (simp add: summarizeInChunks_def Let_def e c1 m1)
  next
    case False
    with pos obtain s where s: "texts = [s]"
      by (cases texts) auto
    with ne have "s \<noteq> []" by simp
    then show ?thesis
      by (simp add: summarizeInChunks_def Let_def e s c1 m1)
  qed
qed

lemma hideRange_length: "length (hideRange c s e) = length c"
  by (simp add: hideRange_def)

lemma hideRange_nth:
  "i < length c \<Longrightarrow> hideRange c s e ! i
     = (if s \<le> int i \<and> int i < e then (c ! i)\<lparr>is_system := True\<rparr> else c ! i)"
  by (simp add: hideRange_def)

lemma visible_messages:
  assumes "s \<le> i" "i \<le> e" "\<not> is_system (c ! nat i)"
  shows "map messageContent (filter (\<lambda>msg. \<not> is_system msg) (chatRange c s e)) \<noteq> []"
proof -
  have "c ! nat i \<in> set (chatRange c s e)"
    using assms(1,2) by (auto simp: chatRange_def)
  then have "c ! nat i \<in> set (filter (\<lambda>msg. \<not> is_system msg) (chatRange c s e))"
    using assms(3) by simp
  then show ?thesis
    by (auto simp: filter_empty_conv)
qed

lemma summarizeScene_success:
  assumes "0 \<le> s" "s \<le> e" "e < int (length (chat w))"
    and "s \<le> v" "v \<le> e" "\<not> is_system (chat w ! nat v)"
    and "summarization_profile S \<noteq> []"
    and "\<forall>h p ms mt. \<exists>t. requestResult H (fst (sendRequest H h p ms mt)) = Inr t \<and> t \<noteq> []"
  shows "\<exists>summ w' t. summarizeScene H S w s e = (Inr summ, w') \<and> summ \<noteq> []
      \<and> chat w' = (if hide_summarized_scenes S
                    then hideRange ((chat w)[nat e := (chat w ! nat e)\<lparr>extra := Some ((extraOf (chat w ! nat e))
                           \<lparr>tr_scene_end := Some True, tr_scene_summary := Some summ,
                            tr_scene_start := Some s, tr_summarized_at := Some t\<rparr>)\<rparr>]) s e
                    else (chat w)[nat e := (chat w ! nat e)\<lparr>extra := Some ((extraOf (chat w ! nat e))
                           \<lparr>tr_scene_end := Some True, tr_scene_summary := Some summ,
                            tr_scene_start := Some s, tr_summarized_at := Some t\<rparr>)\<rparr>])"
proof -
  let ?messages = "map messageContent (filter (\<lambda>msg. \<not> is_system msg) (chatRange (chat w) s e))"
  have ne: "?messages \<noteq> []"
    using assms(4,5,6) by (rule visible_messages)
  have c: "chat w \<noteq> []"
    using assms(3) assms(1,2) by auto
  let ?call = "if int (getTokenCountAsync H (join chunkSeparator ?messages)) > maxContext H - 500
               then summarizeInChunks H S w ?messages (maxContext H - 500)
               else generateText H S w (join chunkSeparator ?messages)
                      (promptInstructions (scene_summary_prompt S))"
  have "\<exists>summ w1. ?call = (Inr summ, w1) \<and> summ \<noteq> [] \<and> chat w1 = chat w \<and> memoryCache w1 = memoryCache w"
    using summarizeInChunks_success [OF c assms(7,8) ne] generateText_success [OF c assms(7,8)]
    by auto
  then obtain summ w1 where call: "?call = (Inr summ, w1)" and s: "summ \<noteq> []" and c1: "chat w1 = chat w"
    by blast
  have "summarizeScene H S w s e
      = (Inr summ, storeMemory H S (w1\<lparr>chat := (if hide_summarized_scenes S
                    then hideRange ((chat w)[nat e := (chat w ! nat e)\<lparr>extra := Some ((extraOf (chat w ! nat e))
                           \<lparr>tr_scene_end := Some True, tr_scene_summary := Some summ,
                            tr_scene_start := Some s, tr_summarized_at := Some (dateNow H (hostState w1))\<rparr>)\<rparr>]) s e
                    else (chat w)[nat e := (chat w ! nat e)\<lparr>extra := Some ((extraOf (chat w ! nat e))
                           \<lparr>tr_scene_end := Some True, tr_scene_summary := Some summ,
                            tr_scene_start := Some s, tr_summarized_at := Some (dateNow H (hostState w1))\<rparr>)\<rparr>])\<rparr>)
                  summ ''scene'' e [s, e])"
    using assms(1,2,3) ne s
    by (simp add: summarizeScene_def Let_def call c1 del: storeMemory_def)
  then show ?thesis
    using s by (auto simp: storeMemory_chat)
qed

text \<open>The chat after a scene summary, seen from outside.\<close>

lemma summarizeScene_effect:
  assumes "0 \<le> s" "s \<le> e" "e < int (length (chat w))"
    and "s \<le> v" "v \<le> e" "\<not> is_system (chat w ! nat v)"
    and "summarization_profile S \<noteq> []"
    and "\<forall>h p ms mt. \<exists>t. requestResult H (fst (sendRequest H h p ms mt)) = Inr t \<and> t \<noteq> []"
  shows "\<exists>summ w'. summarizeScene H S w s e = (Inr summ, w')
      \<and> length (chat w') = length (chat w)
      \<and> isSceneEnd (chat w' ! nat e) \<and> hasSceneSummary (chat w' ! nat e)
      \<and> tr_scene_start (extraOf (chat w' ! nat e)) = Some s
      \<and> (\<forall>i < length (chat w). i \<noteq> nat e \<longrightarrow> extra (chat w' ! i) = extra (chat w ! i))
      \<and> (\<forall>i < length (chat w). int i > e \<longrightarrow> chat w' ! i = chat w ! i)"
proof -
  obtain summ w' t where r: "summarizeScene H S w s e = (Inr summ, w')" and ne: "summ \<noteq> []"
    and c: "chat w' = (if hide_summarized_scenes S
                    then hideRange ((chat w)[nat e := (chat w ! nat e)\<lparr>extra := Some ((extraOf (chat w ! nat e))
                           \<lparr>tr_scene_end := Some True, tr_scene_summary := Some summ,
                            tr_scene_start := Some s, tr_summarized_at := Some t\<rparr>)\<rparr>]) s e
                    else (chat w)[nat e := (chat w ! nat e)\<lparr>extra := Some ((extraOf (chat w ! nat e))
                           \<lparr>tr_scene_end := Some True, tr_scene_summary := Some summ,
                            tr_scene_start := Some s, tr_summarized_at := Some t\<rparr>)\<rparr>])"
    using summarizeScene_success [OF assms] by blast
  have e: "nat e < length (chat w)"
    using assms(1,2,3) by simp
  have ee: "\<not> int (nat e) < e"
    using assms(1,2) by simp
  have 1: "length (chat w') = length (chat w)"
    by (simp add: c hideRange_length)
  have 2: "isSceneEnd (chat w' ! nat e) \<and> hasSceneSummary (chat w' ! nat e)
      \<and> tr_scene_start (extraOf (chat w' ! nat e)) = Some s"
    using e ee ne
    by (simp add: c hideRange_nth isSceneEnd_def hasSceneSummary_def extraOf_def truthyBool_def truthyStr_def)
  have 3: "extra (chat w' ! i) = extra (chat w ! i)" if "i < length (chat w)" "i \<noteq> nat e" for i
    using that by (simp add: c hideRange_nth)
  have 4: "chat w' ! i = chat w ! i" if "i < length (chat w)" "int i > e" for i
    using that assms(1,2) by (simp add: c hideRange_nth)
  from r 1 2 3 4 show ?thesis by blast
qed

lemma firstSceneEndIn_None:
  assumes "\<forall>j. a \<le> j \<and> j \<le> b \<longrightarrow> \<not> isSceneEnd (c ! nat j)"
  shows "firstSceneEndIn c a b = None"
  using assms by (simp add: firstSceneEndIn_def find_None_iff)

lemma autoFillLoop_block:
  assumes "0 \<le> a" "1 \<le> interval" "a + interval - 1 < int (length (chat w))"
    and "\<forall>j. a \<le> j \<and> j \<le> a + interval - 1 \<longrightarrow> \<not> isSceneEnd (chat w ! nat j)"
    and "a \<le> v" "v \<le> a + interval - 1" "\<not> is_system (chat w ! nat v)"
    and "summarization_profile S \<noteq> []"
    and "\<forall>h p ms mt. \<exists>t. requestResult H (fst (sendRequest H h p ms mt)) = Inr t \<and> t \<noteq> []"
  shows "\<exists>w'. autoFillLoop H S interval w a n = autoFillLoop H S interval w' (a + interval) (n + 1)
      \<and> length (chat w') = length (chat w)
      \<and> isSceneEnd (chat w' ! nat (a + interval - 1))
      \<and> hasSceneSummary (chat w' ! nat (a + interval - 1))
      \<and> tr_scene_start (extraOf (chat w' ! nat (a + interval - 1))) = Some a
      \<and> (\<forall>i < length (chat w). i \<noteq> nat (a + interval - 1) \<longrightarrow> extra (chat w' ! i) = extra (chat w ! i))
      \<and> (\<forall>i < length (chat w). int i > a + interval - 1 \<longrightarrow> chat w' ! i = chat w ! i)"
proof -
  have le: "a \<le> a + interval - 1"
    using assms(2) by simp
  obtain summ w' where r: "summarizeScene H S w a (a + interval - 1) = (Inr summ, w')"
    and p: "length (chat w') = length (chat w)
      \<and> isSceneEnd (chat w' ! nat (a + interval - 1))
      \<and> hasSceneSummary (chat w' ! nat (a + interval - 1))
      \<and> tr_scene_start (extraOf (chat w' ! nat (a + interval - 1))) = Some a
      \<and> (\<forall>i < length (chat w). i \<noteq> nat (a + interval - 1) \<longrightarrow> extra (chat w' ! i) = extra (chat w ! i))
      \<and> (\<forall>i < length (chat w). int i > a + interval - 1 \<longrightarrow> chat w' ! i = chat w ! i)"
    using summarizeScene_effect [OF assms(1) le assms(3,5,6,7,8,9)] by blast
  have f: "firstSceneEndIn (chat w) a (a + interval - 1) = None"
    using assms(4) by (rule firstSceneEndIn_None)
  have lt: "a < int (length (chat w))"
    using assms(2,3) by simp
  have "autoFillLoop H S interval w a n = autoFillLoop H S interval w' (a + interval) (n + 1)"
    using lt assms(3)
    by (subst autoFillLoop.simps) (simp add: f r Let_def)
  with p show ?thesis by blast
qed

lemma autoFillLoop_stop:
  assumes "int (length (chat w)) \<le> a + interval - 1"
  shows "autoFillLoop H S interval w a n = Some (n, w)"
  using assms by (subst autoFillLoop.simps) (simp add: Let_def)

lemma lastSceneEndOf_none:
  assumes "\<forall>i < length c. \<not> isSceneEnd (c ! i)"
  shows "lastSceneEndOf c = - 1"
proof -
  have "foldl (\<lambda>lastSceneEnd i. if isSceneEnd (c ! i) then int i else lastSceneEnd) x xs = x"
    if "\<forall>i \<in> set xs. \<not> isSceneEnd (c ! i)" for x xs
    using that by (induction xs arbitrary: x) simp_all
  then show ?thesis
    using assms by (simp add: lastSceneEndOf_def)
qed

lemma extra_cong:
  assumes "extra m' = extra m"
  shows "isSceneEnd m' = isSceneEnd m" "hasSceneSummary m' = hasSceneSummary m" "extraOf m' = extraOf m"
  using assms by (simp_all add: isSceneEnd_def hasSceneSummary_def extraOf_def)

lemma autoFillLoop_two_blocks:
  assumes len: "length (chat w) = 45" and a: "0 \<le> a" "a \<le> 5"
    and none: "\<forall>j. a \<le> j \<and> j < 45 \<longrightarrow> \<not> isSceneEnd (chat w ! nat j)"
    and v1: "a \<le> v1" "v1 \<le> a + 19" "\<not> is_system (chat w ! nat v1)"
    and v2: "a + 20 \<le> v2" "v2 \<le> a + 39" "\<not> is_system (chat w ! nat v2)"
    and prof: "summarization_profile S \<noteq> []"
    and gen: "\<forall>h p ms mt. \<exists>t. requestResult H (fst (sendRequest H h p ms mt)) = Inr t \<and> t \<noteq> []"
  shows "\<exists>w'. autoFillLoop H S 20 w a n = Some (n + 2, w') \<and> length (chat w') = 45
      \<and> isSceneEnd (chat w' ! nat (a + 19)) \<and> hasSceneSummary (chat w' ! nat (a + 19))
      \<and> tr_scene_start (extraOf (chat w' ! nat (a + 19))) = Some a
      \<and> isSceneEnd (chat w' ! nat (a + 39)) \<and> hasSceneSummary (chat w' ! nat (a + 39))
      \<and> tr_scene_start (extraOf (chat w' ! nat (a + 39))) = Some (a + 20)
      \<and> (\<forall>i < 45. i \<noteq> nat (a + 19) \<longrightarrow> i \<noteq> nat (a + 39) \<longrightarrow> extra (chat w' ! i) = extra (chat w ! i))
      \<and> (\<forall>i < 45. int i > a + 39 \<longrightarrow> chat w' ! i = chat w ! i)"
proof -
  have b1: "a + 20 - 1 < int (length (chat w))"
    using len a by simp
  have n1: "\<forall>j. a \<le> j \<and> j \<le> a + 20 - 1 \<longrightarrow> \<not> isSceneEnd (chat w ! nat j)"
    using none a by simp
  have v1': "v1 \<le> a + 20 - 1"
    using v1(2) by simp
  obtain w1 where s1: "autoFillLoop H S 20 w a n = autoFillLoop H S 20 w1 (a + 20) (n + 1)"
    and l1: "length (chat w1) = length (chat w)"
    and e1: "isSceneEnd (chat w1 ! nat (a + 20 - 1))" "hasSceneSummary (chat w1 ! nat (a + 20 - 1))"
      "tr_scene_start (extraOf (chat w1 ! nat (a + 20 - 1))) = Some a"
    and x1: "\<forall>i < length (chat w). i \<noteq> nat (a + 20 - 1) \<longrightarrow> extra (chat w1 ! i) = extra (chat w ! i)"
    and k1: "\<forall>i < length (chat w). int i > a + 20 - 1 \<longrightarrow> chat w1 ! i = chat w ! i"
    using autoFillLoop_block [OF a(1) _ b1 n1 v1(1) v1' v1(3) prof gen, of n] by auto
  have a2: "0 \<le> a + 20"
    using a by simp
  have b2: "a + 20 + 20 - 1 < int (length (chat w1))"
    using len l1 a by simp
  have n2: "\<forall>j. a + 20 \<le> j \<and> j \<le> a + 20 + 20 - 1 \<longrightarrow> \<not> isSceneEnd (chat w1 ! nat j)"
  proof (intro allI impI)
    fix j
    assume j: "a + 20 \<le> j \<and> j \<le> a + 20 + 20 - 1"
    then have "nat j < length (chat w)" "nat j \<noteq> nat (a + 20 - 1)"
      using len a by auto
    then have "extra (chat w1 ! nat j) = extra (chat w ! nat j)"
      using x1 by simp
    then have "isSceneEnd (chat w1 ! nat j) = isSceneEnd (chat w ! nat j)"
      by (rule extra_cong)
    then show "\<not> isSceneEnd (chat w1 ! nat j)"
      using none j a by simp
  qed
  have v2': "v2 \<le> a + 20 + 20 - 1"
    using v2(2) by simp
  have "chat w1 ! nat v2 = chat w ! nat v2"
    using k1 v2 a len by simp
  then have v2'': "\<not> is_system (chat w1 ! nat v2)"
    using v2(3) by simp
  obtain w2 where s2: "autoFillLoop H S 20 w1 (a + 20) (n + 1) = autoFillLoop H S 20 w2 (a + 20 + 20) (n + 1 + 1)"
    and l2: "length (chat w2) = length (chat w1)"
    and e2: "isSceneEnd (chat w2 ! nat (a + 20 + 20 - 1))" "hasSceneSummary (chat w2 ! nat (a + 20 + 20 - 1))"
      "tr_scene_start (extraOf (chat w2 ! nat (a + 20 + 20 - 1))) = Some (a + 20)"
    and x2: "\<forall>i < length (chat w1). i \<noteq> nat (a + 20 + 20 - 1) \<longrightarrow> extra (chat w2 ! i) = extra (chat w1 ! i)"
    and k2: "\<forall>i < length (chat w1). int i > a + 20 + 20 - 1 \<longrightarrow> chat w2 ! i = chat w1 ! i"
    using autoFillLoop_block [OF a2 _ b2 n2 v2(1) v2' v2'' prof gen, of "n + 1"] by auto
  have s3: "autoFillLoop H S 20 w2 (a + 20 + 20) (n + 1 + 1) = Some (n + 1 + 1, w2)"
    using len l1 l2 a by (intro autoFillLoop_stop) simp
  have r: "autoFillLoop H S 20 w a n = Some (n + 2, w2)"
    using s1 s2 s3 by simp
  have L: "length (chat w2) = 45"
    using len l1 l2 by simp
  have q1: "a + 20 - 1 = a + 19" and q2: "a + 20 + 20 - 1 = a + 39"
    by simp_all
  have i19: "nat (a + 19) < length (chat w1)" "nat (a + 19) \<noteq> nat (a + 20 + 20 - 1)"
    using len l1 a by auto
  then have "extra (chat w2 ! nat (a + 19)) = extra (chat w1 ! nat (a + 19))"
    using x2 by blast
  from extra_cong [OF this] e1 [unfolded q1]
  have E1: "isSceneEnd (chat w2 ! nat (a + 19)) \<and> hasSceneSummary (chat w2 ! nat (a + 19))
      \<and> tr_scene_start (extraOf (chat w2 ! nat (a + 19))) = Some a"
    by (simp only:)
  have E2: "isSceneEnd (chat w2 ! nat (a + 39)) \<and> hasSceneSummary (chat w2 ! nat (a + 39))
      \<and> tr_scene_start (extraOf (chat w2 ! nat (a + 39))) = Some (a + 20)"
    using e2 [unfolded q2] by blast
  have X: "extra (chat w2 ! i) = extra (chat w ! i)"
    if "i < 45" "i \<noteq> nat (a + 19)" "i \<noteq> nat (a + 39)" for i
  proof -
    have "extra (chat w2 ! i) = extra (chat w1 ! i)"
      using x2 that len l1 by simp
    also have "\<dots> = extra (chat w ! i)"
      using x1 that len by simp
    finally show ?thesis .
  qed
  have K: "chat w2 ! i = chat w ! i" if "i < 45" "int i > a + 39" for i
  proof -
    have "chat w2 ! i = chat w1 ! i"
      using k2 that len l1 by simp
    also have "\<dots> = chat w ! i"
      using k1 that len by simp
    finally show ?thesis .
  qed
  from r L E1 E2 X K show ?thesis by blast
qed

lemma summarizeScene_empty:
  assumes "0 \<le> s" "s \<le> e" "e < int (length (chat w))"
    and "\<forall>j. s \<le> j \<and> j \<le> e \<longrightarrow> is_system (chat w ! nat j)"
  shows "summarizeScene H S w s e = (Inl EmptyRangeError, w)"
proof -
  have "filter (\<lambda>msg. \<not> is_system msg) (chatRange (chat w) s e) = []"
    using assms(4) by (auto simp: chatRange_def filter_empty_conv)
  then show ?thesis
    using assms(1,2,3) by (simp add: summarizeScene_def)
qed

lemma autoFillLoop_hidden_block:
  assumes "0 \<le> a" "1 \<le> interval" "a + interval - 1 < int (length (chat w))"
    and "\<forall>j. a \<le> j \<and> j \<le> a + interval - 1 \<longrightarrow> \<not> isSceneEnd (chat w ! nat j)"
    and "\<forall>j. a \<le> j \<and> j \<le> a + interval - 1 \<longrightarrow> is_system (chat w ! nat j)"
  shows "autoFillLoop H S interval w a n = autoFillLoop H S interval w (a + 1) n"
proof -
  have le: "a \<le> a + interval - 1"
    using assms(2) by simp
  have r: "summarizeScene H S w a (a + interval - 1) = (Inl EmptyRangeError, w)"
    using assms(1) le assms(3,5) by (rule summarizeScene_empty)
  have f: "firstSceneEndIn (chat w) a (a + interval - 1) = None"
    using assms(4) by (rule firstSceneEndIn_None)
  have lt: "a < int (length (chat w))"
    using assms(2,3) by simp
  show ?thesis
    using lt assms(3)
    by (subst autoFillLoop.simps) (simp add: f r Let_def)
qed

text \<open>
  Claim C3, as the code has it.  \<^verbatim>\<open>autoFillChapters(interval)\<close> fails with the
  \<open>ValueError\<close> for every interval below 5.  On a chat of 45 messages without scene ends,
  in which each of the blocks 0--19 and 20--39 has a message that is not a system
  message, with a summarization profile and a generator whose every answer the gateway
  reads as a text that is not empty (after the reasoning is parsed out and the white
  space trimmed), \<^verbatim>\<open>autoFillChapters(20)\<close> returns 2; afterwards the scene ends are the
  messages 19 and 39, with scene summaries that start at 0 and at 20; no other message
  has its metadata changed, and the messages 40--44 are as before.
\<close>

theorem autoFillChapters_scenario:
  "(interval < 5 \<longrightarrow> autoFillChapters H S w interval = Some (Inl ValueError, w))
   \<and> (length (chat w) = 45
       \<and> (\<forall>i < 45. \<not> isSceneEnd (chat w ! i))
       \<and> (\<exists>i < 20. \<not> is_system (chat w ! i))
       \<and> (\<exists>i. 20 \<le> i \<and> i < 40 \<and> \<not> is_system (chat w ! i))
       \<and> summarization_profile S \<noteq> []
       \<and> (\<forall>h p ms mt. \<exists>t. requestResult H (fst (sendRequest H h p ms mt)) = Inr t
                              \<and> t \<noteq> [])
       \<longrightarrow> (\<exists>w'. autoFillChapters H S w 20 = Some (Inr 2, w')
              \<and> length (chat w') = 45
              \<and> (\<forall>i < 45. isSceneEnd (chat w' ! i) \<longleftrightarrow> i = 19 \<or> i = 39)
              \<and> hasSceneSummary (chat w' ! 19)
              \<and> tr_scene_start (extraOf (chat w' ! 19)) = Some 0
              \<and> hasSceneSummary (chat w' ! 39)
              \<and> tr_scene_start (extraOf (chat w' ! 39)) = Some 20
              \<and> (\<forall>i < 45. i \<noteq> 19 \<longrightarrow> i \<noteq> 39 \<longrightarrow> extra (chat w' ! i) = extra (chat w ! i))
              \<and> (\<forall>i < 45. 40 \<le> i \<longrightarrow> chat w' ! i = chat w ! i)))"
proof (intro conjI impI)
  assume "interval < 5"
  then show "autoFillChapters H S w interval = Some (Inl ValueError, w)"
    by (simp add: autoFillChapters_def)
next
  assume A: "length (chat w) = 45
       \<and> (\<forall>i < 45. \<not> isSceneEnd (chat w ! i))
       \<and> (\<exists>i < 20. \<not> is_system (chat w ! i))
       \<and> (\<exists>i. 20 \<le> i \<and> i < 40 \<and> \<not> is_system (chat w ! i))
       \<and> summarization_profile S \<noteq> []
       \<and> (\<forall>h p ms mt. \<exists>t. requestResult H (fst (sendRequest H h p ms mt)) = Inr t
                              \<and> t \<noteq> [])"
  then have len: "length (chat w) = 45" and none: "\<forall>i < 45. \<not> isSceneEnd (chat w ! i)"
    and prof: "summarization_profile S \<noteq> []"
    and gen: "\<forall>h p ms mt. \<exists>t. requestResult H (fst (sendRequest H h p ms mt)) = Inr t \<and> t \<noteq> []"
    by blast+
  from A obtain i1 where i1: "i1 < 20" "\<not> is_system (chat w ! i1)" by blast
  from A obtain i2 where i2: "20 \<le> i2" "i2 < 40" "\<not> is_system (chat w ! i2)" by blast
  have none': "\<forall>j. (0::int) \<le> j \<and> j < 45 \<longrightarrow> \<not> isSceneEnd (chat w ! nat j)"
    using none by auto
  have l: "lastSceneEndOf (chat w) = - 1"
    using none len by (intro lastSceneEndOf_none) simp
  obtain w' where r: "autoFillLoop H S 20 w 0 0 = Some (0 + 2, w')" and L: "length (chat w') = 45"
    and E1: "isSceneEnd (chat w' ! nat (0 + 19))" "hasSceneSummary (chat w' ! nat (0 + 19))"
      "tr_scene_start (extraOf (chat w' ! nat (0 + 19))) = Some 0"
    and E2: "isSceneEnd (chat w' ! nat (0 + 39))" "hasSceneSummary (chat w' ! nat (0 + 39))"
      "tr_scene_start (extraOf (chat w' ! nat (0 + 39))) = Some (0 + 20)"
    and X: "\<forall>i < 45. i \<noteq> nat (0 + 19) \<longrightarrow> i \<noteq> nat (0 + 39) \<longrightarrow> extra (chat w' ! i) = extra (chat w ! i)"
    and K: "\<forall>i < 45. int i > 0 + 39 \<longrightarrow> chat w' ! i = chat w ! i"
    using autoFillLoop_two_blocks [OF len _ _ none' _ _ _ _ _ _ prof gen, of "int i1" "int i2" 0] i1 i2
    by auto
  have R: "autoFillChapters H S w 20 = Some (Inr 2, w')"
    by (simp add: autoFillChapters_def l r)
  have S: "isSceneEnd (chat w' ! i) \<longleftrightarrow> i = 19 \<or> i = 39" if "i < 45" for i
  proof (cases "i = 19 \<or> i = 39")
    case True
    then show ?thesis using E1(1) E2(1) by auto
  next
    case False
    then have "extra (chat w' ! i) = extra (chat w ! i)"
      using X that by simp
    then have "isSceneEnd (chat w' ! i) = isSceneEnd (chat w ! i)"
      by (rule extra_cong)
    then show ?thesis
      using False none that by simp
  qed
  have X': "\<forall>i < 45. i \<noteq> 19 \<longrightarrow> i \<noteq> 39 \<longrightarrow> extra (chat w' ! i) = extra (chat w ! i)"
    using X by simp
  have K': "\<forall>i < 45. 40 \<le> i \<longrightarrow> chat w' ! i = chat w ! i"
    using K by simp
  show "\<exists>w'. autoFillChapters H S w 20 = Some (Inr 2, w')
              \<and> length (chat w') = 45
              \<and> (\<forall>i < 45. isSceneEnd (chat w' ! i) \<longleftrightarrow> i = 19 \<or> i = 39)
              \<and> hasSceneSummary (chat w' ! 19)
              \<and> tr_scene_start (extraOf (chat w' ! 19)) = Some 0
              \<and> hasSceneSummary (chat w' ! 39)
              \<and> tr_scene_start (extraOf (chat w' ! 39)) = Some 20
              \<and> (\<forall>i < 45. i \<noteq> 19 \<longrightarrow> i \<noteq> 39 \<longrightarrow> extra (chat w' ! i) = extra (chat w ! i))
              \<and> (\<forall>i < 45. 40 \<le> i \<longrightarrow> chat w' ! i = chat w ! i)"
    using R L S E1 E2 X' K' by (intro exI [of _ w']) simp
qed

lemma answeringHost_works:
  "\<forall>h p ms mt. \<exists>t. requestResult answeringHost (fst (sendRequest answeringHost h p ms mt)) = Inr t
      \<and> t \<noteq> []"
proof -
  have t: "trim ''A short summary.'' = ''A short summary.''"
    by code_simp
  have p: "parseReasoningFromString answeringHost = None"
    by (simp add: answeringHost_def)
  have s: "fst (sendRequest answeringHost h p ms mt) = Returns (TextResponse ''A short summary.'')" for h p ms mt
    by (simp add: answeringHost_def answeringRequest_def)
  show ?thesis
    by (simp add: s requestResult_no_parser [OF p] t)
qed

lemma fortyFive_nth:
  "i < 45 \<Longrightarrow> chat fortyFiveWorld ! i = plainMessage ''Ann'' ''Hello there''"
  by (simp add: fortyFiveWorld_def)

lemma plainMessage_props:
  "\<not> isSceneEnd (plainMessage a b)" "\<not> is_system (plainMessage a b)"
  by (simp_all add: plainMessage_def isSceneEnd_def)

theorem autoFillChapters_scenario_witness:
  "(3::int) < 5
   \<and> autoFillChapters answeringHost exampleSettings fortyFiveWorld 3 = Some (Inl ValueError, fortyFiveWorld)
   \<and> length (chat fortyFiveWorld) = 45
   \<and> filter isSceneEnd (chat fortyFiveWorld) = []
   \<and> \<not> is_system (chat fortyFiveWorld ! 0)
   \<and> \<not> is_system (chat fortyFiveWorld ! 20)
   \<and> summarization_profile exampleSettings \<noteq> []
   \<and> (\<forall>h p ms mt. \<exists>t. requestResult answeringHost (fst (sendRequest answeringHost h p ms mt))
                              = Inr t \<and> t \<noteq> [])
   \<and> (\<exists>w'. autoFillChapters answeringHost exampleSettings fortyFiveWorld 20 = Some (Inr 2, w')
          \<and> length (chat w') = 45
          \<and> isSceneEnd (chat w' ! 19) \<and> isSceneEnd (chat w' ! 39)
          \<and> \<not> isSceneEnd (chat w' ! 18) \<and> \<not> isSceneEnd (chat w' ! 40)
          \<and> tr_scene_start (extraOf (chat w' ! 19)) = Some 0
          \<and> tr_scene_start (extraOf (chat w' ! 39)) = Some 20
          \<and> chat w' ! 40 = chat fortyFiveWorld ! 40
          \<and> chat w' ! 44 = chat fortyFiveWorld ! 44)"
proof -
  have a: "(3::int) < 5" by simp
  have b: "length (chat fortyFiveWorld) = 45"
    by (simp add: fortyFiveWorld_def)
  have c: "\<forall>i < 45. \<not> isSceneEnd (chat fortyFiveWorld ! i)"
    by (simp add: fortyFive_nth plainMessage_props)
  have c': "filter isSceneEnd (chat fortyFiveWorld) = []"
    by (simp add: fortyFiveWorld_def plainMessage_props)
  have d0: "\<not> is_system (chat fortyFiveWorld ! 0)" and e0: "\<not> is_system (chat fortyFiveWorld ! 20)"
    by (simp_all add: fortyFive_nth plainMessage_props)
  have d: "\<exists>i < 20. \<not> is_system (chat fortyFiveWorld ! i)"
    using d0 by (intro exI [of _ 0]) simp
  have e: "\<exists>i. 20 \<le> i \<and> i < 40 \<and> \<not> is_system (chat fortyFiveWorld ! i)"
    using e0 by (intro exI [of _ 20]) simp
  have f: "summarization_profile exampleSettings \<noteq> []"
    by (simp add: exampleSettings_def)
  note T = autoFillChapters_scenario [of 3 answeringHost exampleSettings fortyFiveWorld]
  have g: "autoFillChapters answeringHost exampleSettings fortyFiveWorld 3 = Some (Inl ValueError, fortyFiveWorld)"
    using T a by blast
  obtain w' where r: "autoFillChapters answeringHost exampleSettings fortyFiveWorld 20 = Some (Inr 2, w')"
    and l: "length (chat w') = 45"
    and s: "\<forall>i < 45. isSceneEnd (chat w' ! i) \<longleftrightarrow> i = 19 \<or> i = 39"
    and t: "tr_scene_start (extraOf (chat w' ! 19)) = Some 0"
      "tr_scene_start (extraOf (chat w' ! 39)) = Some 20"
    and k: "\<forall>i < 45. 40 \<le> i \<longrightarrow> chat w' ! i = chat fortyFiveWorld ! i"
    using T b c d e f answeringHost_works by blast
  have s': "isSceneEnd (chat w' ! 19) \<and> isSceneEnd (chat w' ! 39)
      \<and> \<not> isSceneEnd (chat w' ! 18) \<and> \<not> isSceneEnd (chat w' ! 40)"
    using s by simp
  have k': "chat w' ! 40 = chat fortyFiveWorld ! 40 \<and> chat w' ! 44 = chat fortyFiveWorld ! 44"
    using k by simp
  have "autoFillChapters answeringHost exampleSettings fortyFiveWorld 20 = Some (Inr 2, w')
          \<and> length (chat w') = 45
          \<and> isSceneEnd (chat w' ! 19) \<and> isSceneEnd (chat w' ! 39)
          \<and> \<not> isSceneEnd (chat w' ! 18) \<and> \<not> isSceneEnd (chat w' ! 40)
          \<and> tr_scene_start (extraOf (chat w' ! 19)) = Some 0
          \<and> tr_scene_start (extraOf (chat w' ! 39)) = Some 20
          \<and> chat w' ! 40 = chat fortyFiveWorld ! 40
          \<and> chat w' ! 44 = chat fortyFiveWorld ! 44"
    using r l s' t k' by blast
  then have h: "\<exists>w'. autoFillChapters answeringHost exampleSettings fortyFiveWorld 20 = Some (Inr 2, w')
          \<and> length (chat w') = 45
          \<and> isSceneEnd (chat w' ! 19) \<and> isSceneEnd (chat w' ! 39)
          \<and> \<not> isSceneEnd (chat w' ! 18) \<and> \<not> isSceneEnd (chat w' ! 40)
          \<and> tr_scene_start (extraOf (chat w' ! 19)) = Some 0
          \<and> tr_scene_start (extraOf (chat w' ! 39)) = Some 20
          \<and> chat w' ! 40 = chat fortyFiveWorld ! 40
          \<and> chat w' ! 44 = chat fortyFiveWorld ! 44"
    by (rule exI)
  from a g b c' d0 e0 f answeringHost_works h show ?thesis by blast
qed

lemma hiddenStart_nth:
  "i < 20 \<Longrightarrow> chat hiddenStartWorld ! i = hiddenMessage"
  "20 \<le> i \<Longrightarrow> i < 45 \<Longrightarrow> chat hiddenStartWorld ! i = plainMessage ''Ann'' ''Hello there''"
  by (simp_all add: hiddenStartWorld_def nth_append)

lemma hiddenMessage_props:
  "\<not> isSceneEnd hiddenMessage" "is_system hiddenMessage" "extra hiddenMessage = None"
  by (simp_all add: hiddenMessage_def isSceneEnd_def)

lemma hiddenStart_no_scene_end: "i < 45 \<Longrightarrow> \<not> isSceneEnd (chat hiddenStartWorld ! i)"
  by (cases "i < 20") (simp_all add: hiddenStart_nth hiddenMessage_props plainMessage_props)

lemma hiddenStart_no_scene_end_int:
  "j < 45 \<Longrightarrow> \<not> isSceneEnd (chat hiddenStartWorld ! nat j)"
  using hiddenStart_no_scene_end [of "nat j"] by simp

lemma hiddenStart_hidden_int:
  "j < 20 \<Longrightarrow> is_system (chat hiddenStartWorld ! nat j)"
  using hiddenStart_nth(1) [of "nat j"] by (simp add: hiddenMessage_props)

lemma hiddenStart_run:
  "\<exists>w'. autoFillChapters answeringHost exampleSettings hiddenStartWorld 20 = Some (Inr 2, w')
      \<and> \<not> isSceneEnd (chat w' ! 19)
      \<and> isSceneEnd (chat w' ! 20) \<and> tr_scene_start (extraOf (chat w' ! 20)) = Some 1
      \<and> isSceneEnd (chat w' ! 40) \<and> tr_scene_start (extraOf (chat w' ! 40)) = Some 21"
proof -
  let ?w = hiddenStartWorld
  have len: "length (chat ?w) = 45"
    by (simp add: hiddenStartWorld_def)
  have l: "lastSceneEndOf (chat ?w) = - 1"
    by (rule lastSceneEndOf_none) (simp add: len hiddenStart_no_scene_end)
  have prof: "summarization_profile exampleSettings \<noteq> []"
    by (simp add: exampleSettings_def)
  have first: "autoFillLoop answeringHost exampleSettings 20 ?w 0 0
      = autoFillLoop answeringHost exampleSettings 20 ?w (0 + 1) 0"
  proof (rule autoFillLoop_hidden_block)
    show "\<forall>j. 0 \<le> j \<and> j \<le> 0 + 20 - 1 \<longrightarrow> \<not> isSceneEnd (chat ?w ! nat j)"
      by (simp add: hiddenStart_no_scene_end_int)
    show "\<forall>j. 0 \<le> j \<and> j \<le> 0 + 20 - 1 \<longrightarrow> is_system (chat ?w ! nat j)"
      by (simp add: hiddenStart_hidden_int)
  qed (simp_all add: len)
  have none: "\<forall>j. (1::int) \<le> j \<and> j < 45 \<longrightarrow> \<not> isSceneEnd (chat ?w ! nat j)"
    by (simp add: hiddenStart_no_scene_end_int)
  have v1: "\<not> is_system (chat ?w ! nat 20)" and v2: "\<not> is_system (chat ?w ! nat 21)"
    by (simp_all add: hiddenStart_nth plainMessage_props)
  obtain w' where r: "autoFillLoop answeringHost exampleSettings 20 ?w 1 0 = Some (0 + 2, w')"
    and E1: "isSceneEnd (chat w' ! nat (1 + 19))" "tr_scene_start (extraOf (chat w' ! nat (1 + 19))) = Some 1"
    and E2: "isSceneEnd (chat w' ! nat (1 + 39))" "tr_scene_start (extraOf (chat w' ! nat (1 + 39))) = Some (1 + 20)"
    and X: "\<forall>i < 45. i \<noteq> nat (1 + 19) \<longrightarrow> i \<noteq> nat (1 + 39) \<longrightarrow> extra (chat w' ! i) = extra (chat ?w ! i)"
    using autoFillLoop_two_blocks [OF len _ _ none _ _ v1 _ _ v2 prof answeringHost_works, of 0]
    by auto
  have R: "autoFillChapters answeringHost exampleSettings ?w 20 = Some (Inr 2, w')"
    using first r by (simp add: autoFillChapters_def l)
  have "extra (chat w' ! 19) = extra (chat ?w ! 19)"
    using X by simp
  then have "isSceneEnd (chat w' ! 19) = isSceneEnd (chat ?w ! 19)"
    by (rule extra_cong)
  then have N: "\<not> isSceneEnd (chat w' ! 19)"
    by (simp add: hiddenStart_no_scene_end)
  from R N E1 E2 show ?thesis
    by (intro exI [of _ w']) simp
qed

text \<open>
  The claim as it is written speaks of every chat of 45 messages without scene ends.
  When the first twenty messages are hidden, the block 0--19 has no visible message:
  \<^verbatim>\<open>summarizeScene\<close> throws, the block start moves to message 1, and the two chapters
  cover the messages 1--20 and 21--40.  Message 19 is no scene end, and message 40 is one.
\<close>

theorem autoFillChapters_counterexample:
  "length (chat hiddenStartWorld) = 45
   \<and> filter isSceneEnd (chat hiddenStartWorld) = []
   \<and> fst (the (autoFillChapters answeringHost exampleSettings hiddenStartWorld 20)) = Inr 2
   \<and> \<not> isSceneEnd (chat (snd (the (autoFillChapters answeringHost exampleSettings hiddenStartWorld 20))) ! 19)
   \<and> isSceneEnd (chat (snd (the (autoFillChapters answeringHost exampleSettings hiddenStartWorld 20))) ! 20)
   \<and> tr_scene_start (extraOf
        (chat (snd (the (autoFillChapters answeringHost exampleSettings hiddenStartWorld 20))) ! 20))
       = Some 1
   \<and> isSceneEnd (chat (snd (the (autoFillChapters answeringHost exampleSettings hiddenStartWorld 20))) ! 40)
   \<and> tr_scene_start (extraOf
        (chat (snd (the (autoFillChapters answeringHost exampleSettings hiddenStartWorld 20))) ! 40))
       = Some 21"
proof -
  have a: "length (chat hiddenStartWorld) = 45"
    by (simp add: hiddenStartWorld_def)
  have b: "filter isSceneEnd (chat hiddenStartWorld) = []"
    by (simp add: hiddenStartWorld_def hiddenMessage_props plainMessage_props)
  obtain w' where r: "autoFillChapters answeringHost exampleSettings hiddenStartWorld 20 = Some (Inr 2, w')"
    and p: "\<not> isSceneEnd (chat w' ! 19)"
      "isSceneEnd (chat w' ! 20)" "tr_scene_start (extraOf (chat w' ! 20)) = Some 1"
      "isSceneEnd (chat w' ! 40)" "tr_scene_start (extraOf (chat w' ! 40)) = Some 21"
    using hiddenStart_run by blast
  show ?thesis
    using a b p by (simp add: r)
qed

end
